theory Spec2Isabelle
  imports Main
begin

section \<open>Bluestreak: the streak engine of the StreakManager class\<close>

text \<open>
  The repository holds two revisions of the content script. Both define the class
  \<open>StreakManager\<close>. The revision in \<open>src/unnamed/part_000\<close> has the field
  \<open>isRefreshing\<close>, the method \<open>checkRecentPostsForToday\<close> and a \<open>calculateStreak\<close>
  that starts at yesterday; the revision in \<open>src/content.js\<close> has none of the three.
  The methods \<open>fetchWithTimeout\<close>, \<open>getPostsForDay\<close> and \<open>showError\<close> are the same
  text in both files. Where the two revisions differ, the definition taken from
  \<open>src/content.js\<close> carries the suffix \<open>_content\<close>.
\<close>

subsection \<open>Time\<close>

text \<open>
  A JavaScript \<open>Date\<close> is an instant: an integer number of milliseconds since the epoch.
  \<open>StreakManager.getUTCDate\<close> renders the UTC calendar date of an instant as a string
  \<open>M/D/YYYY\<close>; two such strings are equal exactly when the instants lie on the same
  UTC day, so the model returns the number of that day (days since the epoch).
\<close>

type_synonym handle = string
type_synonym instant = int
type_synonym day = int

definition msPerDay :: int where
  "msPerDay = 86400000"

definition getUTCDate :: "instant \<Rightarrow> day" where
  "getUTCDate t = t div msPerDay"

subsection \<open>The feed service and the page\<close>

text \<open>
  One request to \<open>app.bsky.feed.getAuthorFeed\<close>: the \<open>URLSearchParams\<close> of the source.
  The cursor is spread into the parameters only when it is truthy.
\<close>

record request =
  req_actor :: handle
  req_limit :: nat
  req_filter :: string
  req_cursor :: "string option"

text \<open>
  What comes back from \<open>fetchWithTimeout\<close> followed by \<open>response.json()\<close>: either an
  exception (transport failure, abort by the timeout, a body that is not JSON), or the
  parsed object with its \<open>feed\<close> (the \<open>indexedAt\<close> instants of the posts, most recent
  first) and its optional \<open>cursor\<close>. A body without a \<open>feed\<close> array is the empty feed:
  \<open>getPostsForDay\<close> tests \<open>!data.feed?.length\<close>, which holds for both, and
  \<open>checkRecentPostsForToday\<close> answers false for both.
\<close>

datatype response = NetworkError | FeedPage "instant list" "string option"

datatype event = Fetched request response | Slept nat

text \<open>
  The collaborators of the class. \<open>net i rq\<close> is what the service answers to the request
  \<open>rq\<close> when it is the \<open>i\<close>-th request sent (the service may change over time and may
  fail at will); \<open>latency i\<close> is how many milliseconds that answer takes. \<open>helpLink\<close>
  says whether \<open>a[aria-label="Help"]\<close> is in the document, \<open>profileLink\<close> is the handle
  read from \<open>a[aria-label="Profile"]\<close> when that link is there.

  The last two fields are the time zone of the browser, as the language specification
  of \<open>Date\<close> has it: \<open>utcOffset t\<close> is what the zone adds to UTC at the instant \<open>t\<close>, in
  milliseconds, and \<open>localOffset w\<close> is what it adds at the local time \<open>w\<close>, read with
  the offset before the change where a clock change skips or repeats that local time.
\<close>

record env =
  net :: "nat \<Rightarrow> request \<Rightarrow> response"
  latency :: "nat \<Rightarrow> nat"
  helpLink :: bool
  profileLink :: "handle option"
  utcOffset :: "instant \<Rightarrow> int"
  localOffset :: "int \<Rightarrow> int"

subsection \<open>Local time\<close>

text \<open>
  \<open>LocalTime\<close> and \<open>UTC\<close> of the language specification. The methods \<open>getDate\<close> and
  \<open>setDate\<close> work on the local time of the instant.
\<close>

definition localTime :: "env \<Rightarrow> instant \<Rightarrow> int" where
  "localTime e t = t + utcOffset e t"

definition utcOfLocal :: "env \<Rightarrow> int \<Rightarrow> instant" where
  "utcOfLocal e w = w - localOffset e w"

text \<open>
  \<open>date.setDate(date.getDate() - 1)\<close>: the local time of the instant is moved to the
  same time of day on the local calendar day before (day 0 of a month is the last day of
  the month before), and that local time is read back as an instant. Across a clock
  change the step is 23 or 25 hours.
\<close>

definition previousDay :: "env \<Rightarrow> instant \<Rightarrow> instant" where
  "previousDay e t = utcOfLocal e (localTime e t - msPerDay)"


datatype error = FetchFailed | HelpLinkNotFound | ProfileLinkNotFound

subsection \<open>The state of a StreakManager\<close>

datatype streakText = DayStreak nat | Refreshing

datatype buttonText = Arrows | Hourglass

text \<open>
  The elements the class puts into the document: the loading indicator
  (\<open>.streak-container.loading\<close>), the streak display (\<open>.streak-main-container\<close>: its
  text, the text of its refresh button, and whether the icon says posted; the hint
  paragraph is there exactly when it does not), and an error box (\<open>.streak-error\<close>).
\<close>

datatype widget = Loading | Main streakText buttonText bool | ErrorBox string

text \<open>The object stored under the key \<open>bluestreak\<close> of \<open>localStorage\<close>.\<close>

record streakRecord =
  streakDate :: "instant option"
  streakNumber :: nat

text \<open>
  The fields of the object, and the world it acts on. \<open>cache\<close> is the \<open>Map\<close> whose key
  is the string \<open>handle-M/D/YYYY\<close>; the date part has no hyphen, so the key determines
  the pair of handle and day. \<open>debouncePending\<close> says that the timer held in
  \<open>debounceTimeout\<close> is set and has not fired. \<open>clock\<close> is the wall clock, \<open>nreq\<close>
  counts the requests sent, \<open>trace\<close> lists the requests and the timer waits in the
  order they happened.
\<close>

record manager =
  cache :: "handle \<times> day \<rightharpoonup> bool"
  debouncePending :: bool
  isRefreshing :: bool
  storage :: "streakRecord option"
  ui :: "widget list"
  clock :: instant
  nreq :: nat
  trace :: "event list"

subsection \<open>fetchWithTimeout\<close>

text \<open>
  The request is aborted after 5000 ms, and the abort rejects the fetch. The event
  records what the caller sees.
\<close>

definition timeoutMs :: nat where
  "timeoutMs = 5000"

definition fetchWithTimeout :: "env \<Rightarrow> request \<Rightarrow> manager \<Rightarrow> response \<times> manager" where
  "fetchWithTimeout e rq s =
     (let i = nreq s;
          r = (if latency e i < timeoutMs then net e i rq else NetworkError)
      in (r, s\<lparr>clock := clock s + int (min (latency e i) timeoutMs),
                nreq := Suc i,
                trace := trace s @ [Fetched rq r]\<rparr>))"

definition sleep :: "nat \<Rightarrow> manager \<Rightarrow> manager" where
  "sleep ms s = s\<lparr>clock := clock s + int ms, trace := trace s @ [Slept ms]\<rparr>"

subsection \<open>getPostsForDay\<close>

definition feedRequest :: "handle \<Rightarrow> nat \<Rightarrow> string option \<Rightarrow> request" where
  "feedRequest h n c =
     \<lparr>req_actor = h, req_limit = n, req_filter = ''posts_no_replies'', req_cursor = c\<rparr>"

text \<open>A cursor is truthy when it is present and not the empty string.\<close>

fun truthy :: "string option \<Rightarrow> bool" where
  "truthy None = False"
| "truthy (Some c) = (c \<noteq> [])"

definition somePostOn :: "day \<Rightarrow> instant list \<Rightarrow> bool" where
  "somePostOn target posts = list_ex (\<lambda>p. getUTCDate p = target) posts"

text \<open>
  The \<open>while (!foundPost)\<close> loop of \<open>getPostsForDay\<close>, entered with \<open>foundPost\<close> false.
  A rejected fetch leaves the loop with the exception. The loop need not end: a service
  that keeps answering non-empty pages with a cursor and no post of the day keeps it
  running, and then the value is \<open>None\<close>.
\<close>

partial_function (option) paginate ::
  "env \<Rightarrow> handle \<Rightarrow> day \<Rightarrow> string option \<Rightarrow> manager \<Rightarrow> ((error + bool) \<times> manager) option"
where
  "paginate e h target cur s =
     (case fetchWithTimeout e (feedRequest h 100 (if truthy cur then cur else None)) s of
        (NetworkError, s1) \<Rightarrow> Some (Inl FetchFailed, s1)
      | (FeedPage posts c, s1) \<Rightarrow>
          if posts = [] then Some (Inr False, s1)
          else if \<not> somePostOn target posts \<and> truthy c then paginate e h target c s1
          else Some (Inr (somePostOn target posts), s1))"

declare paginate.simps [code]

text \<open>
  The body of the \<open>try\<close>: the loop from the first page, then \<open>cache.set\<close>. An exception
  skips the \<open>cache.set\<close>.
\<close>

definition tryLookup ::
  "env \<Rightarrow> handle \<Rightarrow> day \<Rightarrow> manager \<Rightarrow> ((error + bool) \<times> manager) option"
where
  "tryLookup e h target s =
     (case paginate e h target None s of
        None \<Rightarrow> None
      | Some (Inl err, s1) \<Rightarrow> Some (Inl err, s1)
      | Some (Inr found, s1) \<Rightarrow>
          Some (Inr found, s1\<lparr>cache := (cache s1)((h, target) \<mapsto> found)\<rparr>))"

text \<open>
  \<open>Math.pow(2, 3 - retries) * 1000\<close>, cut to whole milliseconds by the timer:
  1000, 2000, 4000 for \<open>retries\<close> 3, 2, 1.
\<close>

definition backoffMs :: "nat \<Rightarrow> nat" where
  "backoffMs retries = 8000 div 2 ^ retries"

fun getPostsForDay ::
  "env \<Rightarrow> handle \<Rightarrow> instant \<Rightarrow> nat \<Rightarrow> manager \<Rightarrow> ((error + bool) \<times> manager) option"
where
  "getPostsForDay e h date retries s =
     (case cache s (h, getUTCDate date) of
        Some b \<Rightarrow> Some (Inr b, s)
      | None \<Rightarrow>
          (case tryLookup e h (getUTCDate date) s of
             None \<Rightarrow> None
           | Some (Inr found, s1) \<Rightarrow> Some (Inr found, s1)
           | Some (Inl err, s1) \<Rightarrow>
               if retries > 0
               then getPostsForDay e h date (retries - 1) (sleep (backoffMs retries) s1)
               else Some (Inl err, s1)))"

subsection \<open>The elements in the document\<close>

text \<open>
  \<open>removeExistingStreakContainers\<close> removes every element of the classes
  \<open>streak-main-container\<close>, \<open>streak-container\<close> and \<open>streak-error\<close>.
\<close>

fun streakElement :: "widget \<Rightarrow> bool" where
  "streakElement Loading = True"
| "streakElement (Main t b p) = True"
| "streakElement (ErrorBox m) = True"

definition removeExistingStreakContainers :: "manager \<Rightarrow> manager" where
  "removeExistingStreakContainers s = s\<lparr>ui := filter (\<lambda>w. \<not> streakElement w) (ui s)\<rparr>"

definition createLoadingIndicator :: "manager \<Rightarrow> manager" where
  "createLoadingIndicator s = s\<lparr>ui := ui s @ [Loading]\<rparr>"

definition createStreakDisplay :: "nat \<Rightarrow> bool \<Rightarrow> manager \<Rightarrow> manager" where
  "createStreakDisplay streak postedToday s =
     s\<lparr>ui := ui s @ [Main (DayStreak streak) Arrows postedToday]\<rparr>"

text \<open>
  \<open>showError\<close> removes the first error box of the document and appends the new one
  beside the help link, when that link exists.
\<close>

fun removeFirstError :: "widget list \<Rightarrow> widget list" where
  "removeFirstError [] = []"
| "removeFirstError (ErrorBox m # ws) = ws"
| "removeFirstError (w # ws) = w # removeFirstError ws"

definition showError :: "env \<Rightarrow> string \<Rightarrow> manager \<Rightarrow> manager" where
  "showError e msg s =
     s\<lparr>ui := (if helpLink e then removeFirstError (ui s) @ [ErrorBox msg]
               else removeFirstError (ui s))\<rparr>"

subsection \<open>calculateStreak\<close>

text \<open>
  The \<open>while (true)\<close> loop, the same in both revisions: a lookup that throws shows an
  error and throws again; a day without a post ends the loop; a day with a post is
  counted and the date moves back one day. The loop runs for as long as the lookups
  answer true.
\<close>

partial_function (option) streakLoop ::
  "env \<Rightarrow> handle \<Rightarrow> instant \<Rightarrow> nat \<Rightarrow> manager \<Rightarrow> ((error + nat) \<times> manager) option"
where
  "streakLoop e h currentDate streak s =
     (case getPostsForDay e h currentDate 3 s of
        None \<Rightarrow> None
      | Some (Inl err, s1) \<Rightarrow>
          Some (Inl err, showError e ''Error calculating streak. Please try again later.'' s1)
      | Some (Inr hasPosted, s1) \<Rightarrow>
          if \<not> hasPosted then Some (Inr streak, s1)
          else streakLoop e h (previousDay e currentDate) (Suc streak) s1)"

declare streakLoop.simps [code]

text \<open>
  \<open>src/unnamed/part_000\<close>: yesterday is looked up first, outside the \<open>try\<close>; the loop
  then starts at yesterday again.
\<close>

definition calculateStreak ::
  "env \<Rightarrow> handle \<Rightarrow> manager \<Rightarrow> ((error + nat) \<times> manager) option"
where
  "calculateStreak e h s =
     (let today = clock s;
          yesterday = previousDay e today
      in case getPostsForDay e h yesterday 3 s of
           None \<Rightarrow> None
         | Some (Inl err, s1) \<Rightarrow> Some (Inl err, s1)
         | Some (Inr hasPostedYesterday, s1) \<Rightarrow>
             if \<not> hasPostedYesterday then Some (Inr 0, s1)
             else streakLoop e h yesterday 0 s1)"

text \<open>\<open>src/content.js\<close>: the loop starts at \<open>new Date()\<close>, that is, at today.\<close>

definition calculateStreak_content ::
  "env \<Rightarrow> handle \<Rightarrow> manager \<Rightarrow> ((error + nat) \<times> manager) option"
where
  "calculateStreak_content e h s = streakLoop e h (clock s) 0 s"

subsection \<open>checkRecentPostsForToday (src/unnamed/part_000 only)\<close>

definition checkRecentPostsForToday :: "env \<Rightarrow> handle \<Rightarrow> manager \<Rightarrow> bool \<times> manager" where
  "checkRecentPostsForToday e h s =
     (case fetchWithTimeout e (feedRequest h 5 None) s of
        (NetworkError, s1) \<Rightarrow> (False, s1)
      | (FeedPage posts c, s1) \<Rightarrow> (somePostOn (getUTCDate (clock s1)) posts, s1))"

subsection \<open>updateOrInsertStreakInfo and refreshStreak, src/unnamed/part_000\<close>

text \<open>
  The body of the \<open>try\<close> of \<open>updateFunc\<close>. \<open>getProfile\<close> throws when the profile link
  is missing.
\<close>

definition updateBody :: "env \<Rightarrow> manager \<Rightarrow> ((error + unit) \<times> manager) option" where
  "updateBody e s =
     (if \<not> helpLink e then Some (Inl HelpLinkNotFound, s)
      else case profileLink e of
        None \<Rightarrow> Some (Inl ProfileLinkNotFound, s)
      | Some h \<Rightarrow>
          (let s1 = (if \<not> isRefreshing s
                     then createLoadingIndicator (removeExistingStreakContainers s)
                     else s)
           in case checkRecentPostsForToday e h s1 of
             (hasPostedToday, s2) \<Rightarrow>
               (case calculateStreak e h s2 of
                  None \<Rightarrow> None
                | Some (Inl err, s3) \<Rightarrow> Some (Inl err, s3)
                | Some (Inr n, s3) \<Rightarrow>
                    (let streak = (if hasPostedToday then n + 1 else n);
                         s4 = s3\<lparr>storage :=
                                 Some \<lparr>streakDate = Some (clock s3), streakNumber = streak\<rparr>\<rparr>
                     in Some (Inr (),
                          createStreakDisplay streak hasPostedToday
                            (removeExistingStreakContainers s4))))))"

definition updateFunc :: "env \<Rightarrow> manager \<Rightarrow> manager option" where
  "updateFunc e s =
     (case updateBody e s of
        None \<Rightarrow> None
      | Some (Inl err, s1) \<Rightarrow> Some (showError e ''Failed to update streak. Please refresh.'' s1)
      | Some (Inr u, s1) \<Rightarrow> Some s1)"

text \<open>
  During a refresh the update runs at once; otherwise the pending timer is cleared and a
  new one is set for 300 ms later.
\<close>

definition updateOrInsertStreakInfo :: "env \<Rightarrow> manager \<Rightarrow> manager option" where
  "updateOrInsertStreakInfo e s =
     (let s1 = (if debouncePending s \<and> \<not> isRefreshing s then s\<lparr>debouncePending := False\<rparr>
                else s)
      in if isRefreshing s1 then updateFunc e s1
         else Some (s1\<lparr>debouncePending := True\<rparr>))"

text \<open>The timer set by \<open>updateOrInsertStreakInfo\<close> fires and runs \<open>updateFunc\<close>.\<close>

definition debounceFires :: "env \<Rightarrow> manager \<Rightarrow> manager option" where
  "debounceFires e s =
     (if debouncePending s then updateFunc e (s\<lparr>debouncePending := False\<rparr>) else Some s)"

fun isMain :: "widget \<Rightarrow> bool" where
  "isMain (Main t b p) = True"
| "isMain w = False"

text \<open>
  The first \<open>.streak-main-container\<close> gets the hourglass on its button and the text
  \<open>Refreshing...\<close>.
\<close>

fun markRefreshing :: "widget list \<Rightarrow> widget list" where
  "markRefreshing [] = []"
| "markRefreshing (Main t b p # ws) = Main Refreshing Hourglass p # ws"
| "markRefreshing (w # ws) = w # markRefreshing ws"

text \<open>
  What \<open>refreshStreak\<close> does between setting \<open>isRefreshing\<close> and its first \<open>await\<close>,
  when the display exists: the state a second click finds.
\<close>

definition refreshPrepare :: "manager \<Rightarrow> manager" where
  "refreshPrepare s = s\<lparr>ui := markRefreshing (ui s), cache := Map.empty, storage := None\<rparr>"

definition refreshBody :: "env \<Rightarrow> manager \<Rightarrow> ((error + unit) \<times> manager) option" where
  "refreshBody e s =
     (if \<not> helpLink e then Some (Inl HelpLinkNotFound, s)
      else if \<not> list_ex isMain (ui s) then Some (Inr (), s)
      else map_option (Pair (Inr ()))
             (updateOrInsertStreakInfo e (sleep 500 (refreshPrepare s))))"

definition refreshStreak :: "env \<Rightarrow> manager \<Rightarrow> manager option" where
  "refreshStreak e s =
     (if isRefreshing s then Some s
      else map_option (\<lambda>t. t\<lparr>isRefreshing := False\<rparr>)
             (case refreshBody e (s\<lparr>isRefreshing := True\<rparr>) of
                None \<Rightarrow> None
              | Some (Inl err, s1) \<Rightarrow>
                  Some (showError e ''Failed to refresh streak. Please try again.'' s1)
              | Some (Inr u, s1) \<Rightarrow> Some s1))"

subsection \<open>updateOrInsertStreakInfo and refreshStreak, src/content.js\<close>

text \<open>
  The day of the month of a day given by its number (proleptic Gregorian calendar), and
  \<open>Date.prototype.getDate\<close>: the day of the month of the local day of the instant.
\<close>

definition dayOfMonth :: "day \<Rightarrow> int" where
  "dayOfMonth d =
     (let doe = (d + 719468) mod 146097;
          yoe = (doe - doe div 1460 + doe div 36524 - doe div 146096) div 365;
          doy = doe - (365 * yoe + yoe div 4 - yoe div 100);
          mp = (5 * doy + 2) div 153
      in doy - (153 * mp + 2) div 5 + 1)"

definition getDate :: "env \<Rightarrow> instant \<Rightarrow> int" where
  "getDate e t = dayOfMonth (localTime e t div msPerDay)"

text \<open>
  \<open>new Date(StreakManager.getUTCDate())\<close>: the date string \<open>M/D/YYYY\<close> of the current
  UTC day parsed back, which the browser reads as local midnight of that date.
\<close>

definition todayDate :: "env \<Rightarrow> manager \<Rightarrow> instant" where
  "todayDate e s = utcOfLocal e (getUTCDate (clock s) * msPerDay)"

text \<open>
  The stored \<open>streakDate\<close> is absent or the ISO string of a date, and \<open>today\<close> is a
  \<open>Date\<close> object. \<open>streakDate === today\<close> compares a string or \<open>undefined\<close> with an
  object and is false. \<open>streakDate < today\<close> converts the ISO string to a number, which
  gives \<open>NaN\<close>, and is false. \<open>today.getDate() - new Date(streakDate).getDate() > 1\<close>
  is false when \<open>streakDate\<close> is absent (\<open>NaN\<close> again).
\<close>

definition strictEqualsDate :: "instant option \<Rightarrow> instant \<Rightarrow> bool" where
  "strictEqualsDate sd today = False"

definition lessThanDate :: "instant option \<Rightarrow> instant \<Rightarrow> bool" where
  "lessThanDate sd today = False"

definition moreThanADayApart :: "env \<Rightarrow> instant option \<Rightarrow> instant \<Rightarrow> bool" where
  "moreThanADayApart e sd today =
     (case sd of None \<Rightarrow> False | Some t \<Rightarrow> getDate e today - getDate e t > 1)"

definition isDayBefore :: "env \<Rightarrow> instant option \<Rightarrow> instant \<Rightarrow> bool" where
  "isDayBefore e sd today =
     (case sd of None \<Rightarrow> False | Some t \<Rightarrow> getDate e t = getDate e today - 1)"

text \<open>
  The end of the \<open>try\<close> of the timer callback: write the record, replace the display.
\<close>

definition finishUpdate_content ::
  "instant \<Rightarrow> instant option \<Rightarrow> nat \<Rightarrow> bool \<Rightarrow> manager \<Rightarrow> manager"
where
  "finishUpdate_content today sd streak hasPostedToday s =
     createStreakDisplay streak hasPostedToday
       (removeExistingStreakContainers
          (s\<lparr>storage := Some \<lparr>streakDate = (if hasPostedToday then Some today else sd),
                               streakNumber = streak\<rparr>\<rparr>))"

definition updateBody_content :: "env \<Rightarrow> manager \<Rightarrow> ((error + unit) \<times> manager) option" where
  "updateBody_content e s =
     (if \<not> helpLink e then Some (Inl HelpLinkNotFound, s)
      else case profileLink e of
        None \<Rightarrow> Some (Inl ProfileLinkNotFound, s)
      | Some h \<Rightarrow>
          (let s1 = createLoadingIndicator (removeExistingStreakContainers s);
               today = todayDate e s1;
               sd = (case storage s1 of None \<Rightarrow> None | Some r \<Rightarrow> streakDate r);
               sn = (case storage s1 of None \<Rightarrow> 0 | Some r \<Rightarrow> streakNumber r)
           in if moreThanADayApart e sd today
              then Some (Inr (), finishUpdate_content today sd 0 False s1)
              else if sd = None \<or> lessThanDate sd today
              then (if sd \<noteq> None \<and> isDayBefore e sd today
                    then (case getPostsForDay e h (clock s1) 3 s1 of
                            None \<Rightarrow> None
                          | Some (Inl err, s2) \<Rightarrow> Some (Inl err, s2)
                          | Some (Inr hasPostedToday, s2) \<Rightarrow>
                              Some (Inr (),
                                finishUpdate_content today sd
                                  (if hasPostedToday then sn + 1 else sn) hasPostedToday s2))
                    else (case calculateStreak_content e h s1 of
                            None \<Rightarrow> None
                          | Some (Inl err, s2) \<Rightarrow> Some (Inl err, s2)
                          | Some (Inr streak, s2) \<Rightarrow>
                              Some (Inr (),
                                finishUpdate_content today sd streak (streak > 0) s2)))
              else Some (Inr (),
                     finishUpdate_content today sd sn (strictEqualsDate sd today) s1)))"

definition updateFunc_content :: "env \<Rightarrow> manager \<Rightarrow> manager option" where
  "updateFunc_content e s =
     (case updateBody_content e s of
        None \<Rightarrow> None
      | Some (Inl err, s1) \<Rightarrow> Some (showError e ''Failed to update streak. Please refresh.'' s1)
      | Some (Inr u, s1) \<Rightarrow> Some s1)"

text \<open>Any pending timer is cleared and a new one is set.\<close>

definition updateOrInsertStreakInfo_content :: "manager \<Rightarrow> manager" where
  "updateOrInsertStreakInfo_content s = s\<lparr>debouncePending := True\<rparr>"

definition debounceFires_content :: "env \<Rightarrow> manager \<Rightarrow> manager option" where
  "debounceFires_content e s =
     (if debouncePending s then updateFunc_content e (s\<lparr>debouncePending := False\<rparr>)
      else Some s)"

definition refreshStreak_content :: "manager \<Rightarrow> manager" where
  "refreshStreak_content s = updateOrInsertStreakInfo_content (s\<lparr>storage := None\<rparr>)"

subsection \<open>Reading the trace\<close>

text \<open>
  Predicates on the events of a lookup, for an event and the day looked up: the fetch was
  rejected; the page holds a post of the day; the page is empty or brings no cursor to go
  on with; the event is an answered page.
\<close>

fun failedFetch :: "event \<Rightarrow> bool" where
  "failedFetch (Fetched rq NetworkError) = True"
| "failedFetch ev = False"

fun pageHasPost :: "day \<Rightarrow> event \<Rightarrow> bool" where
  "pageHasPost target (Fetched rq (FeedPage posts c)) = somePostOn target posts"
| "pageHasPost target ev = False"

fun endOfFeed :: "event \<Rightarrow> bool" where
  "endOfFeed (Fetched rq (FeedPage posts c)) = (posts = [] \<or> \<not> truthy c)"
| "endOfFeed ev = False"

fun isPage :: "event \<Rightarrow> bool" where
  "isPage (Fetched rq (FeedPage posts c)) = True"
| "isPage ev = False"

fun requestCursor :: "event \<Rightarrow> string option" where
  "requestCursor (Fetched rq r) = req_cursor rq"
| "requestCursor (Slept ms) = None"

fun isFetch :: "event \<Rightarrow> bool" where
  "isFetch (Fetched rq r) = True"
| "isFetch (Slept ms) = False"

fun delays :: "event list \<Rightarrow> nat list" where
  "delays [] = []"
| "delays (Slept ms # evs) = ms # delays evs"
| "delays (Fetched rq r # evs) = delays evs"

fun startsWithRestart :: "event list \<Rightarrow> bool" where
  "startsWithRestart (Slept ms # Fetched rq r # evs) = (req_cursor rq = None)"
| "startsWithRestart evs = False"

fun restartsAfterFailure :: "event list \<Rightarrow> bool" where
  "restartsAfterFailure [] = True"
| "restartsAfterFailure (ev # evs) =
     ((failedFetch ev \<and> evs \<noteq> [] \<longrightarrow> startsWithRestart evs) \<and> restartsAfterFailure evs)"

fun backoffSchedule :: "nat \<Rightarrow> nat \<Rightarrow> nat list" where
  "backoffSchedule retries 0 = []"
| "backoffSchedule retries (Suc n) = backoffMs retries # backoffSchedule (retries - 1) n"

text \<open>
  Every answered page that is not the last event is followed by a request that carries
  the cursor of that page.
\<close>

fun cursorsFollow :: "event list \<Rightarrow> bool" where
  "cursorsFollow (Fetched rq (FeedPage posts c) # ev # evs) =
     (isFetch ev \<and> requestCursor ev = c \<and> cursorsFollow (ev # evs))"
| "cursorsFollow (ev # evs) = cursorsFollow evs"
| "cursorsFollow [] = True"

text \<open>
  The events of one run of the \<open>try\<close> body entered with cursor \<open>cur\<close>: requests only,
  the first with that cursor, each further one with the cursor of the page before it;
  every page but the last has posts, none of the day, and a cursor; the last event is the
  rejected fetch when the run throws, and otherwise the page that decides the answer.
\<close>

definition attemptTrace :: "day \<Rightarrow> string option \<Rightarrow> error + bool \<Rightarrow> event list \<Rightarrow> bool" where
  "attemptTrace target cur res tr \<longleftrightarrow>
     tr \<noteq> [] \<and> isFetch (hd tr) \<and> requestCursor (hd tr) = (if truthy cur then cur else None) \<and>
     cursorsFollow tr \<and>
     (\<forall>ev \<in> set (butlast tr). isPage ev \<and> \<not> pageHasPost target ev \<and> \<not> endOfFeed ev) \<and>
     (case res of
        Inl err \<Rightarrow> err = FetchFailed \<and> failedFetch (last tr)
      | Inr b \<Rightarrow> isPage (last tr) \<and> (pageHasPost target (last tr) \<or> endOfFeed (last tr)) \<and>
                 b = pageHasPost target (last tr))"

text \<open>
  The events of a whole call of \<open>getPostsForDay\<close> that misses the cache: failed runs of
  the \<open>try\<close> body, each followed by its wait, then the run that answers or the failed run
  that finds no retries left.
\<close>

inductive lookupTrace :: "day \<Rightarrow> nat \<Rightarrow> error + bool \<Rightarrow> event list \<Rightarrow> bool" where
  final: "attemptTrace target None res tr \<Longrightarrow> (isl res \<Longrightarrow> retries = 0)
          \<Longrightarrow> lookupTrace target retries res tr"
| retry: "attemptTrace target None (Inl FetchFailed) tr \<Longrightarrow> lookupTrace target r res tr'
          \<Longrightarrow> lookupTrace target (Suc r) res (tr @ Slept (backoffMs (Suc r)) # tr')"

declare getPostsForDay.simps [simp del]

subsection \<open>Services and a manager to run the code on\<close>

text \<open>
  All services but \<open>londonFeed\<close> run in UTC. The clock of \<open>freshManager\<close> is
  01:00 UTC on day 10. The feed of \<open>steadyNet\<close> has two
  pages: posts at 00:30 on day 10 and at noon on day 9, then, under the cursor \<open>p2\<close>, a
  post at noon on day 8. \<open>deadFeed\<close> rejects every request. \<open>flakyFeed\<close> rejects the
  requests numbered 0, 1, 2 and 4; \<open>hiccupFeed\<close> rejects the request numbered 1.
\<close>

definition steadyNet :: "nat \<Rightarrow> request \<Rightarrow> response" where
  "steadyNet i rq =
     (if req_cursor rq = None then FeedPage [865800000, 820800000] (Some ''p2'')
      else FeedPage [734400000] None)"

definition steadyFeed :: env where
  "steadyFeed = \<lparr>net = steadyNet, latency = (\<lambda>i. 20), helpLink = True, profileLink = Some ''alice'',
     utcOffset = (\<lambda>t. 0), localOffset = (\<lambda>w. 0)\<rparr>"

definition deadFeed :: env where
  "deadFeed = \<lparr>net = (\<lambda>i rq. NetworkError), latency = (\<lambda>i. 20), helpLink = True,
                profileLink = Some ''alice'',
     utcOffset = (\<lambda>t. 0), localOffset = (\<lambda>w. 0)\<rparr>"

definition flakyFeed :: env where
  "flakyFeed = \<lparr>net = (\<lambda>i rq. if i < 3 \<or> i = 4 then NetworkError else steadyNet i rq),
                 latency = (\<lambda>i. 20), helpLink = True, profileLink = Some ''alice'',
     utcOffset = (\<lambda>t. 0), localOffset = (\<lambda>w. 0)\<rparr>"

definition hiccupFeed :: env where
  "hiccupFeed = \<lparr>net = (\<lambda>i rq. if i = 1 then NetworkError else steadyNet i rq),
                  latency = (\<lambda>i. 20), helpLink = True, profileLink = Some ''alice'',
     utcOffset = (\<lambda>t. 0), localOffset = (\<lambda>w. 0)\<rparr>"

definition freshManager :: manager where
  "freshManager = \<lparr>cache = Map.empty, debouncePending = False, isRefreshing = False,
                    storage = None, ui = [], clock = 867600000, nreq = 0, trace = []\<rparr>"

text \<open>
  \<open>todayOnlyFeed\<close> has a single post, at 00:30 on day 10. \<open>shownManager\<close> shows a streak
  of 7, holds a record of it, and has memoized that day 9 had no post. \<open>midRefresh\<close> is
  that manager after \<open>refreshStreak\<close> has set its flag, marked the display, cleared cache
  and record, and waited its 500 ms. \<open>loadingManager\<close> shows the loading indicator of
  a run under way. \<open>storedManager\<close> holds a record of 7 dated on day 10.
\<close>

definition todayOnlyFeed :: env where
  "todayOnlyFeed = \<lparr>net = (\<lambda>i rq. FeedPage [865800000] None), latency = (\<lambda>i. 20),
                     helpLink = True, profileLink = Some ''alice'',
     utcOffset = (\<lambda>t. 0), localOffset = (\<lambda>w. 0)\<rparr>"

definition shownManager :: manager where
  "shownManager = freshManager\<lparr>cache := [(''alice'', 9) \<mapsto> False],
                                storage := Some \<lparr>streakDate = Some 867000000, streakNumber = 7\<rparr>,
                                ui := [Main (DayStreak 7) Arrows False]\<rparr>"

definition midRefresh :: manager where
  "midRefresh = sleep 500 (refreshPrepare (shownManager\<lparr>isRefreshing := True\<rparr>))"

definition loadingManager :: manager where
  "loadingManager = freshManager\<lparr>ui := [Loading]\<rparr>"

definition storedManager :: manager where
  "storedManager =
     freshManager\<lparr>storage := Some \<lparr>streakDate = Some 867000000, streakNumber = 7\<rparr>\<rparr>"

text \<open>
  \<open>keptManager\<close> holds the record that \<open>src/content.js\<close> writes on day 10 in UTC: its
  date is midnight of that day. \<open>noHelpFeed\<close> is \<open>steadyFeed\<close> on a page without help
  link. \<open>hiddenManager\<close> is \<open>shownManager\<close> while the loading indicator stands in place
  of the streak display.
\<close>

definition keptManager :: manager where
  "keptManager =
     freshManager\<lparr>storage := Some \<lparr>streakDate = Some 864000000, streakNumber = 7\<rparr>\<rparr>"

definition noHelpFeed :: env where
  "noHelpFeed = steadyFeed\<lparr>helpLink := False\<rparr>"

definition hiddenManager :: manager where
  "hiddenManager = shownManager\<lparr>ui := [Loading]\<rparr>"

text \<open>
  London in 2021: summer time, one hour ahead of UTC, from 28 March 01:00 UTC to
  31 October 01:00 UTC, which is from 02:00 to 02:00 of those days on the local clock.
  The feed of \<open>londonFeed\<close> has a single post, at noon UTC on 30 October (day 18930).
  The clock of \<open>londonManager\<close> is 00:30 UTC on 1 November (day 18932).
\<close>

definition londonFeed :: env where
  "londonFeed =
     \<lparr>net = (\<lambda>i rq. FeedPage [1635595200000] None), latency = (\<lambda>i. 20), helpLink = True,
      profileLink = Some ''alice'',
      utcOffset = (\<lambda>t. if 1616893200000 \<le> t \<and> t < 1635642000000 then 3600000 else 0),
      localOffset = (\<lambda>w. if 1616896800000 \<le> w \<and> w < 1635645600000 then 3600000 else 0)\<rparr>"

definition londonManager :: manager where
  "londonManager = freshManager\<lparr>clock := 1635726600000\<rparr>"

section \<open>Properties of getPostsForDay\<close>

lemma fetch_fields [simp]:
  "cache (snd (fetchWithTimeout e rq s)) = cache s"
  "storage (snd (fetchWithTimeout e rq s)) = storage s"
  "ui (snd (fetchWithTimeout e rq s)) = ui s"
  "isRefreshing (snd (fetchWithTimeout e rq s)) = isRefreshing s"
  "debouncePending (snd (fetchWithTimeout e rq s)) = debouncePending s"
  "nreq (snd (fetchWithTimeout e rq s)) = Suc (nreq s)"
  "trace (snd (fetchWithTimeout e rq s)) = trace s @ [Fetched rq (fst (fetchWithTimeout e rq s))]"
  by (simp_all add: fetchWithTimeout_def Let_def)

lemma paginate_trace_aux:
  assumes "paginate e h target cur s = Some y"
  shows "\<exists>new. trace (snd y) = trace s @ new \<and> attemptTrace target cur (fst y) new \<and>
           cache (snd y) = cache s \<and> nreq (snd y) = nreq s + length new"
  using assms
proof (induction rule: paginate.raw_induct[rotated 1, consumes 1, case_names step])
  case (step paginate e h target cur s y)
  obtain r s1 where f: "fetchWithTimeout e (feedRequest h 100 (if truthy cur then cur else None)) s = (r, s1)"
    by (cases "fetchWithTimeout e (feedRequest h 100 (if truthy cur then cur else None)) s")
  have tr1: "trace s1 = trace s @ [Fetched (feedRequest h 100 (if truthy cur then cur else None)) r]"
    and c1: "cache s1 = cache s" and n1: "nreq s1 = Suc (nreq s)"
    using fetch_fields(7)[of e "feedRequest h 100 (if truthy cur then cur else None)" s]
      fetch_fields(1)[of e "feedRequest h 100 (if truthy cur then cur else None)" s]
      fetch_fields(6)[of e "feedRequest h 100 (if truthy cur then cur else None)" s]
    by (simp_all add: f)
  let ?ev = "Fetched (feedRequest h 100 (if truthy cur then cur else None)) r"
  have hdc: "requestCursor ?ev = (if truthy cur then cur else None)"
    by (simp add: feedRequest_def)
  show ?case
  proof (cases r)
    case NetworkError
    with step(2) f have "y = (Inl FetchFailed, s1)" by simp
    with tr1 c1 n1 NetworkError hdc show ?thesis
      by (intro exI[of _ "[?ev]"]) (simp add: attemptTrace_def)
  next
    case (FeedPage posts c)
    show ?thesis
    proof (cases "posts \<noteq> [] \<and> \<not> somePostOn target posts \<and> truthy c")
      case False
      with step(2) f FeedPage have "y = (Inr (somePostOn target posts), s1)"
        by (auto split: if_splits simp: somePostOn_def)
      with tr1 c1 n1 FeedPage hdc False show ?thesis
        by (intro exI[of _ "[?ev]"]) (auto simp add: attemptTrace_def)
    next
      case True
      with step(2) f FeedPage have "paginate e h target c s1 = Some y" by simp
      from step(1)[OF this] obtain new where
        n: "trace (snd y) = trace s1 @ new" "attemptTrace target c (fst y) new"
           "cache (snd y) = cache s1" "nreq (snd y) = nreq s1 + length new" by blast
      from n(2) have ne: "new \<noteq> []" by (simp add: attemptTrace_def)
      from n(2) True have "isFetch (hd new)" "requestCursor (hd new) = c" "cursorsFollow new"
        by (simp_all add: attemptTrace_def)
      with ne FeedPage have cf: "cursorsFollow (?ev # new)"
        by (cases new) simp_all
      have "attemptTrace target cur (fst y) (?ev # new)"
        using n(2) True FeedPage ne hdc cf unfolding attemptTrace_def
        by (auto split: sum.splits)
      with n tr1 c1 n1 show ?thesis
        by (intro exI[of _ "?ev # new"]) simp
    qed
  qed
qed

lemma paginate_trace:
  assumes "paginate e h target cur s = Some (res, s')"
  shows "\<exists>new. trace s' = trace s @ new \<and> attemptTrace target cur res new \<and>
           cache s' = cache s \<and> nreq s' = nreq s + length new"
  using paginate_trace_aux[OF assms] by simp

lemma sleep_fields [simp]:
  "cache (sleep ms s) = cache s"
  "storage (sleep ms s) = storage s"
  "ui (sleep ms s) = ui s"
  "isRefreshing (sleep ms s) = isRefreshing s"
  "debouncePending (sleep ms s) = debouncePending s"
  "nreq (sleep ms s) = nreq s"
  "trace (sleep ms s) = trace s @ [Slept ms]"
  by (simp_all add: sleep_def)

lemma tryLookup_trace:
  assumes "tryLookup e h target s = Some (res, s')"
  shows "\<exists>new. trace s' = trace s @ new \<and> attemptTrace target None res new \<and>
           cache s' = (case res of Inl err \<Rightarrow> cache s | Inr b \<Rightarrow> (cache s)((h, target) \<mapsto> b))"
proof -
  from assms obtain s1 where p: "paginate e h target None s = Some (res, s1)"
    and s': "s' = (case res of Inl err \<Rightarrow> s1 | Inr b \<Rightarrow> s1\<lparr>cache := (cache s1)((h, target) \<mapsto> b)\<rparr>)"
    by (auto simp: tryLookup_def split: option.splits sum.splits)
  from paginate_trace[OF p] s' show ?thesis
    by (auto split: sum.splits)
qed

lemma getPostsForDay_cached:
  "cache s (h, getUTCDate date) = Some b \<Longrightarrow> getPostsForDay e h date retries s = Some (Inr b, s)"
  by (subst getPostsForDay.simps) simp

lemma getPostsForDay_uncached:
  "cache s (h, getUTCDate date) = None \<Longrightarrow>
   getPostsForDay e h date retries s =
     (case tryLookup e h (getUTCDate date) s of
        None \<Rightarrow> None
      | Some (Inr found, s1) \<Rightarrow> Some (Inr found, s1)
      | Some (Inl err, s1) \<Rightarrow>
          if retries > 0
          then getPostsForDay e h date (retries - 1) (sleep (backoffMs retries) s1)
          else Some (Inl err, s1))"
  by (subst getPostsForDay.simps) simp

lemma getPostsForDay_trace:
  assumes "cache s (h, getUTCDate date) = None"
    and "getPostsForDay e h date retries s = Some (res, s')"
  shows "\<exists>new. trace s' = trace s @ new \<and> lookupTrace (getUTCDate date) retries res new \<and>
           cache s' = (case res of Inl err \<Rightarrow> cache s
                       | Inr b \<Rightarrow> (cache s)((h, getUTCDate date) \<mapsto> b))"
  using assms
proof (induction retries arbitrary: s)
  case 0
  from 0(2)[unfolded getPostsForDay_uncached[OF 0(1)]]
  have "tryLookup e h (getUTCDate date) s = Some (res, s')"
    by (auto split: option.splits sum.splits)
  from tryLookup_trace[OF this] obtain new where
    n: "trace s' = trace s @ new" "attemptTrace (getUTCDate date) None res new"
       "cache s' = (case res of Inl err \<Rightarrow> cache s | Inr b \<Rightarrow> (cache s)((h, getUTCDate date) \<mapsto> b))"
    by blast
  from n(2) have "lookupTrace (getUTCDate date) 0 res new"
    by (rule lookupTrace.final) simp
  with n show ?case by blast
next
  case (Suc r)
  note unf = Suc.prems(2)[unfolded getPostsForDay_uncached[OF Suc.prems(1)]]
  from unf obtain res1 s1 where t: "tryLookup e h (getUTCDate date) s = Some (res1, s1)"
    by (auto split: option.splits sum.splits)
  from tryLookup_trace[OF t] obtain new1 where
    n1: "trace s1 = trace s @ new1" "attemptTrace (getUTCDate date) None res1 new1"
        "cache s1 = (case res1 of Inl err \<Rightarrow> cache s | Inr b \<Rightarrow> (cache s)((h, getUTCDate date) \<mapsto> b))"
    by blast
  show ?case
  proof (cases res1)
    case (Inr b)
    with unf t have "res = Inr b" "s' = s1"
      by simp_all
    from n1(2) Inr have "lookupTrace (getUTCDate date) (Suc r) res1 new1"
      by (intro lookupTrace.final) simp_all
    with n1 Inr \<open>res = Inr b\<close> \<open>s' = s1\<close> show ?thesis
      by blast
  next
    case (Inl err)
    with n1(2) have err: "err = FetchFailed" by (simp add: attemptTrace_def)
    from Inl unf t
    have rec: "getPostsForDay e h date r (sleep (backoffMs (Suc r)) s1) = Some (res, s')"
      by simp
    from Inl n1(3) Suc.prems(1) have unc: "cache (sleep (backoffMs (Suc r)) s1) (h, getUTCDate date) = None"
      by simp
    from Suc.IH[OF unc rec] obtain new2 where
      n2: "trace s' = trace (sleep (backoffMs (Suc r)) s1) @ new2"
          "lookupTrace (getUTCDate date) r res new2"
          "cache s' = (case res of Inl err \<Rightarrow> cache (sleep (backoffMs (Suc r)) s1)
                       | Inr b \<Rightarrow> (cache (sleep (backoffMs (Suc r)) s1))((h, getUTCDate date) \<mapsto> b))"
      by blast
    from n1(2) Inl err n2(2)
    have "lookupTrace (getUTCDate date) (Suc r) res (new1 @ Slept (backoffMs (Suc r)) # new2)"
      by (auto intro: lookupTrace.retry)
    moreover have "trace s' = trace s @ new1 @ Slept (backoffMs (Suc r)) # new2"
      using n1(1) n2(1) by simp
    moreover have "cache s' = (case res of Inl err \<Rightarrow> cache s
                       | Inr b \<Rightarrow> (cache s)((h, getUTCDate date) \<mapsto> b))"
      using n2(3) n1(3) Inl by (cases res) simp_all
    ultimately show ?thesis by blast
  qed
qed

lemma delays_append: "delays (xs @ ys) = delays xs @ delays ys"
  by (induction xs rule: delays.induct) simp_all

lemma delays_fetches: "\<forall>ev \<in> set xs. isFetch ev \<Longrightarrow> delays xs = []"
  by (induction xs rule: delays.induct) simp_all

lemma isPage_isFetch: "isPage ev \<Longrightarrow> isFetch ev"
  by (cases ev) simp_all

lemma failedFetch_isFetch: "failedFetch ev \<Longrightarrow> isFetch ev"
  by (cases ev) simp_all

lemma failedFetch_not_page: "failedFetch ev \<Longrightarrow> \<not> isPage ev \<and> \<not> pageHasPost target ev \<and> \<not> endOfFeed ev"
  by (cases ev rule: failedFetch.cases) simp_all

lemma isPage_not_failed: "isPage ev \<Longrightarrow> \<not> failedFetch ev"
  by (cases ev rule: failedFetch.cases) simp_all

lemma attemptTrace_last_fetch:
  assumes "attemptTrace target cur res tr"
  shows "isFetch (last tr)"
  using assms by (auto simp: attemptTrace_def split: sum.splits intro: isPage_isFetch failedFetch_isFetch)

lemma attemptTrace_all_fetches:
  assumes "attemptTrace target cur res tr"
  shows "\<forall>ev \<in> set tr. isFetch ev"
proof -
  from assms have ne: "tr \<noteq> []" by (simp add: attemptTrace_def)
  then have "set tr = set (butlast tr) \<union> {last tr}"
    by (metis append_butlast_last_id list.simps(15) set_append Un_insert_right sup_bot.right_neutral empty_set)
  moreover from assms have "\<forall>ev \<in> set (butlast tr). isFetch ev"
    by (auto simp: attemptTrace_def intro: isPage_isFetch)
  ultimately show ?thesis using attemptTrace_last_fetch[OF assms] by auto
qed

lemma attemptTrace_delays: "attemptTrace target cur res tr \<Longrightarrow> delays tr = []"
  by (rule delays_fetches) (rule attemptTrace_all_fetches)

lemma filter_butlast_last:
  "xs \<noteq> [] \<Longrightarrow> filter P xs = filter P (butlast xs) @ (if P (last xs) then [last xs] else [])"
  by (induction xs) auto

lemma attemptTrace_failures:
  assumes "attemptTrace target cur res tr"
  shows "length (filter failedFetch tr) = (if isl res then 1 else 0)"
proof -
  from assms have ne: "tr \<noteq> []" by (simp add: attemptTrace_def)
  from assms have "filter failedFetch (butlast tr) = []"
    by (auto simp: attemptTrace_def filter_empty_conv dest: isPage_not_failed)
  moreover from assms have "failedFetch (last tr) = isl res"
    by (auto simp: attemptTrace_def split: sum.splits dest: isPage_not_failed)
  ultimately show ?thesis
    using filter_butlast_last[OF ne, of failedFetch] by simp
qed

lemma lookupTrace_delays:
  assumes "lookupTrace target retries res new"
  shows "\<exists>n \<le> retries. delays new = backoffSchedule retries n \<and>
           length (filter failedFetch new) = n + (if isl res then 1 else 0) \<and>
           (isl res \<longrightarrow> n = retries \<and> failedFetch (last new))"
  using assms
proof (induction rule: lookupTrace.induct)
  case (final target res tr retries)
  have "isl res \<longrightarrow> failedFetch (last tr)"
    using final(1) by (auto simp: attemptTrace_def split: sum.splits)
  with final attemptTrace_delays[OF final(1)] attemptTrace_failures[OF final(1)]
  show ?case by (intro exI[of _ 0]) auto
next
  case (retry target tr r res tr')
  then obtain n where n: "n \<le> r" "delays tr' = backoffSchedule r n"
    "length (filter failedFetch tr') = n + (if isl res then 1 else 0)"
    "isl res \<longrightarrow> n = r \<and> failedFetch (last tr')" by blast
  have ne: "tr' \<noteq> []" using retry(2) by (cases rule: lookupTrace.cases) (auto simp: attemptTrace_def)
  have "delays (tr @ Slept (backoffMs (Suc r)) # tr') = backoffSchedule (Suc r) (Suc n)"
    using attemptTrace_delays[OF retry(1)] n(2) by (simp add: delays_append)
  moreover have "length (filter failedFetch (tr @ Slept (backoffMs (Suc r)) # tr')) = Suc n + (if isl res then 1 else 0)"
    using attemptTrace_failures[OF retry(1)] n(3) by simp
  moreover have "isl res \<longrightarrow> Suc n = Suc r \<and> failedFetch (last (tr @ Slept (backoffMs (Suc r)) # tr'))"
    using n(4) ne by simp
  ultimately show ?case using n(1) by (intro exI[of _ "Suc n"]) simp
qed

lemma cursorsFollow_retry:
  "cursorsFollow tr \<Longrightarrow> tr \<noteq> [] \<Longrightarrow> failedFetch (last tr) \<Longrightarrow> cursorsFollow tr'
     \<Longrightarrow> cursorsFollow (tr @ Slept ms # tr')"
proof (induction tr)
  case Nil
  then show ?case by simp
next
  case (Cons a tr)
  note prems = Cons.prems and ih = Cons.IH
  show ?case
  proof (cases tr)
    case Nil
    with prems show ?thesis by (cases a rule: failedFetch.cases) simp_all
  next
    case tr: (Cons b tr2)
    from prems(1) tr have "cursorsFollow tr" by (cases a rule: isPage.cases) simp_all
    with ih prems tr have "cursorsFollow (tr @ Slept ms # tr')" by simp
    with prems(1) tr show ?thesis by (cases a rule: isPage.cases) simp_all
  qed
qed

lemma lookupTrace_cursors: "lookupTrace target retries res new \<Longrightarrow> cursorsFollow new"
proof (induction rule: lookupTrace.induct)
  case (final target res tr retries)
  then show ?case by (simp add: attemptTrace_def)
next
  case (retry target tr r res tr')
  from retry(1) have "cursorsFollow tr" "tr \<noteq> []" "failedFetch (last tr)"
    by (simp_all add: attemptTrace_def)
  from cursorsFollow_retry[OF this retry(3)] show ?case .
qed

lemma lookupTrace_nonempty: "lookupTrace target retries res new \<Longrightarrow> new \<noteq> []"
  by (induction rule: lookupTrace.induct) (auto simp: attemptTrace_def)

lemma lookupTrace_halts:
  assumes "lookupTrace target retries res new"
  shows "(\<forall>ev \<in> set (butlast new). \<not> pageHasPost target ev \<and> \<not> endOfFeed ev) \<and>
         (case res of
            Inl err \<Rightarrow> err = FetchFailed \<and> failedFetch (last new)
          | Inr b \<Rightarrow> isPage (last new) \<and> (pageHasPost target (last new) \<or> endOfFeed (last new)) \<and>
                     b = pageHasPost target (last new))"
  using assms
proof (induction rule: lookupTrace.induct)
  case (final target res tr retries)
  then show ?case by (auto simp: attemptTrace_def split: sum.splits)
next
  case (retry target tr r res tr')
  have ne: "tr' \<noteq> []" by (rule lookupTrace_nonempty[OF retry(2)])
  have ne1: "tr \<noteq> []" using retry(1) by (simp add: attemptTrace_def)
  have a: "\<forall>ev \<in> set tr. \<not> pageHasPost target ev \<and> \<not> endOfFeed ev"
  proof
    fix ev assume "ev \<in> set tr"
    then have "ev \<in> set (butlast tr) \<or> ev = last tr"
      using ne1 by (metis append_butlast_last_id in_set_conv_decomp_first  rotate1.simps(2) set_ConsD set_rotate1)
    then show "\<not> pageHasPost target ev \<and> \<not> endOfFeed ev"
      using retry(1) failedFetch_not_page[of "last tr" target] by (auto simp: attemptTrace_def)
  qed
  have bl: "butlast (tr @ Slept (backoffMs (Suc r)) # tr') = tr @ Slept (backoffMs (Suc r)) # butlast tr'"
    using ne by (simp add: butlast_append)
  have la: "last (tr @ Slept (backoffMs (Suc r)) # tr') = last tr'" using ne by simp
  show ?case unfolding bl la using a retry.IH by auto
qed

lemma restartsAfterFailure_append:
  assumes "xs \<noteq> []" "\<forall>ev \<in> set (butlast xs). \<not> failedFetch ev"
    and "startsWithRestart ys" "restartsAfterFailure ys"
  shows "restartsAfterFailure (xs @ ys)"
  using assms
proof (induction xs)
  case Nil
  then show ?case by simp
next
  case (Cons x xs)
  show ?case
  proof (cases "xs = []")
    case True
    with Cons.prems show ?thesis by simp
  next
    case False
    with Cons.prems have "\<not> failedFetch x" "\<forall>ev \<in> set (butlast xs). \<not> failedFetch ev" by auto
    with Cons.IH[OF False _ Cons.prems(3,4)] show ?thesis by simp
  qed
qed

lemma restartsAfterFailure_attempt:
  assumes "xs \<noteq> []" "\<forall>ev \<in> set (butlast xs). \<not> failedFetch ev"
  shows "restartsAfterFailure xs"
  using assms
proof (induction xs)
  case Nil
  then show ?case by simp
next
  case (Cons x xs)
  show ?case
  proof (cases "xs = []")
    case True
    then show ?thesis by simp
  next
    case False
    with Cons.prems have "\<not> failedFetch x" "\<forall>ev \<in> set (butlast xs). \<not> failedFetch ev" by auto
    with Cons.IH[OF False] show ?thesis by simp
  qed
qed

lemma lookupTrace_first:
  "lookupTrace target retries res new \<Longrightarrow> new \<noteq> [] \<and> isFetch (hd new) \<and> requestCursor (hd new) = None"
  by (induction rule: lookupTrace.induct) (auto simp: attemptTrace_def)

lemma lookupTrace_restarts:
  assumes "lookupTrace target retries res new"
  shows "restartsAfterFailure new"
  using assms
proof (induction rule: lookupTrace.induct)
  case (final target res tr retries)
  then show ?case
    by (intro restartsAfterFailure_attempt) (auto simp: attemptTrace_def dest: isPage_not_failed)
next
  case (retry target tr r res tr')
  from lookupTrace_first[OF retry(2)] obtain rq rr rest where
    tr': "tr' = Fetched rq rr # rest" "req_cursor rq = None"
    by (cases tr'; cases "hd tr'") auto
  have "restartsAfterFailure (tr @ (Slept (backoffMs (Suc r)) # tr'))"
  proof (rule restartsAfterFailure_append)
    show "tr \<noteq> []" using retry(1) by (simp add: attemptTrace_def)
    show "\<forall>ev \<in> set (butlast tr). \<not> failedFetch ev"
      using retry(1) by (auto simp: attemptTrace_def dest: isPage_not_failed)
    show "startsWithRestart (Slept (backoffMs (Suc r)) # tr')" using tr' by simp
    show "restartsAfterFailure (Slept (backoffMs (Suc r)) # tr')" using retry.IH by simp
  qed
  then show ?case by simp
qed

subsection \<open>Running the code on concrete inputs\<close>

text \<open>
  One round of the pagination loop, with the pair returned by \<open>fetchWithTimeout\<close> taken
  apart by projections: the simplifier unfolds the next round only after the answer to
  this one is known.
\<close>

lemma paginate_unfold:
  "paginate e h target cur s =
     (case fst (fetchWithTimeout e (feedRequest h 100 (if truthy cur then cur else None)) s) of
        NetworkError \<Rightarrow>
          Some (Inl FetchFailed,
                snd (fetchWithTimeout e (feedRequest h 100 (if truthy cur then cur else None)) s))
      | FeedPage posts c \<Rightarrow>
          if posts = [] then
            Some (Inr False,
                  snd (fetchWithTimeout e (feedRequest h 100 (if truthy cur then cur else None)) s))
          else if \<not> somePostOn target posts \<and> truthy c then
            paginate e h target c
              (snd (fetchWithTimeout e (feedRequest h 100 (if truthy cur then cur else None)) s))
          else
            Some (Inr (somePostOn target posts),
                  snd (fetchWithTimeout e (feedRequest h 100 (if truthy cur then cur else None)) s)))"
  by (subst paginate.simps) (simp add: case_prod_unfold split: response.splits)

lemmas run_defs = steadyNet_def steadyFeed_def deadFeed_def flakyFeed_def hiccupFeed_def
  freshManager_def tryLookup_def paginate_unfold fetchWithTimeout_def feedRequest_def
  getUTCDate_def msPerDay_def timeoutMs_def sleep_def backoffMs_def somePostOn_def
  getPostsForDay.simps Let_def

lemma fresh_uncached: "cache freshManager k = None"
  by (simp add: freshManager_def)

lemma backoffSchedule_3: "n \<le> 3 \<Longrightarrow> backoffSchedule 3 n = take n [1000, 2000, 4000]"
proof -
  assume "n \<le> 3"
  then consider "n = 0" | "n = Suc 0" | "n = Suc (Suc 0)" | "n = Suc (Suc (Suc 0))" by linarith
  then show ?thesis
  proof cases
    case 1
    then show ?thesis by simp
  next
    case 2
    then show ?thesis by (simp add: backoffMs_def)
  next
    case 3
    then show ?thesis by (simp add: backoffMs_def)
  next
    case 4
    then show ?thesis by (simp add: backoffMs_def)
  qed
qed

text \<open>A lookup whose first-page request is rejected, one step at a time.\<close>

lemma fetch_rejected:
  assumes "net e (nreq s) rq = NetworkError"
  shows "fetchWithTimeout e rq s =
           (NetworkError,
            s\<lparr>clock := clock s + int (min (latency e (nreq s)) timeoutMs), nreq := Suc (nreq s),
              trace := trace s @ [Fetched rq NetworkError]\<rparr>)"
  using assms by (simp add: fetchWithTimeout_def Let_def)

lemma tryLookup_rejected:
  assumes "net e (nreq s) (feedRequest h 100 None) = NetworkError"
  shows "tryLookup e h target s =
           Some (Inl FetchFailed,
                 s\<lparr>clock := clock s + int (min (latency e (nreq s)) timeoutMs), nreq := Suc (nreq s),
                   trace := trace s @ [Fetched (feedRequest h 100 None) NetworkError]\<rparr>)"
  unfolding tryLookup_def
  by (subst paginate.simps) (simp add: fetch_rejected[OF assms])

lemma getPostsForDay_rejected:
  assumes "cache s (h, getUTCDate date) = None"
    and "net e (nreq s) (feedRequest h 100 None) = NetworkError"
  shows "getPostsForDay e h date retries s =
           (if retries > 0
            then getPostsForDay e h date (retries - 1)
                   (sleep (backoffMs retries)
                      (s\<lparr>clock := clock s + int (min (latency e (nreq s)) timeoutMs),
                         nreq := Suc (nreq s),
                         trace := trace s @ [Fetched (feedRequest h 100 None) NetworkError]\<rparr>))
            else Some (Inl FetchFailed,
                   s\<lparr>clock := clock s + int (min (latency e (nreq s)) timeoutMs),
                     nreq := Suc (nreq s),
                     trace := trace s @ [Fetched (feedRequest h 100 None) NetworkError]\<rparr>))"
  by (simp add: getPostsForDay_uncached[OF assms(1)] tryLookup_rejected[OF assms(2)])

lemma four_rejections:
  assumes unc: "cache s (h, getUTCDate date) = None"
    and rej: "\<forall>i < 4. net e (nreq s + i) (feedRequest h 100 None) = NetworkError"
  shows "\<exists>s'. getPostsForDay e h date 3 s = Some (Inl FetchFailed, s') \<and>
           trace s' = trace s @
             [Fetched (feedRequest h 100 None) NetworkError, Slept 1000,
              Fetched (feedRequest h 100 None) NetworkError, Slept 2000,
              Fetched (feedRequest h 100 None) NetworkError, Slept 4000,
              Fetched (feedRequest h 100 None) NetworkError]"
proof -
  let ?rq = "feedRequest h 100 None"
  define f where "f = (\<lambda>t :: manager.
     t\<lparr>clock := clock t + int (min (latency e (nreq t)) timeoutMs), nreq := Suc (nreq t),
       trace := trace t @ [Fetched ?rq NetworkError]\<rparr>)"
  have step: "getPostsForDay e h date r t =
      (if r > 0 then getPostsForDay e h date (r - 1) (sleep (backoffMs r) (f t))
       else Some (Inl FetchFailed, f t))"
    if "cache t (h, getUTCDate date) = None" "net e (nreq t) ?rq = NetworkError" for r t
    using getPostsForDay_rejected[OF that] by (simp add: f_def)
  have fc: "cache (f t) = cache t" and fn: "nreq (f t) = Suc (nreq t)"
    and ft: "trace (f t) = trace t @ [Fetched ?rq NetworkError]" for t
    by (simp_all add: f_def)
  define s1 where "s1 = sleep (backoffMs 3) (f s)"
  define s2 where "s2 = sleep (backoffMs 2) (f s1)"
  define s3 where "s3 = sleep (backoffMs 1) (f s2)"
  have n1: "nreq s1 = nreq s + 1" and c1: "cache s1 = cache s"
    by (simp_all add: s1_def fn fc)
  have n2: "nreq s2 = nreq s + 2" and c2: "cache s2 = cache s"
    by (simp_all add: s2_def fn fc n1 c1)
  have n3: "nreq s3 = nreq s + 3" and c3: "cache s3 = cache s"
    by (simp_all add: s3_def fn fc n2 c2)
  from rej[rule_format, of 0] have r0: "net e (nreq s) ?rq = NetworkError" by simp
  from rej[rule_format, of 1] have r1: "net e (nreq s1) ?rq = NetworkError"
    unfolding n1 by simp
  from rej[rule_format, of 2] have r2: "net e (nreq s2) ?rq = NetworkError"
    unfolding n2 by simp
  from rej[rule_format, of 3] have r3: "net e (nreq s3) ?rq = NetworkError"
    unfolding n3 by simp
  have "getPostsForDay e h date 3 s = getPostsForDay e h date 2 s1"
    using step[OF unc r0, of 3] by (simp add: s1_def)
  also have "\<dots> = getPostsForDay e h date 1 s2"
    using step[of s1 2] unc c1 r1 by (simp add: s2_def)
  also have "\<dots> = getPostsForDay e h date 0 s3"
    using step[of s2 1] unc c2 r2 by (simp add: s3_def)
  also have "\<dots> = Some (Inl FetchFailed, f s3)"
    using step[of s3 0] unc c3 r3 by simp
  finally have res: "getPostsForDay e h date 3 s = Some (Inl FetchFailed, f s3)" .
  have "trace (f s3) = trace s @
             [Fetched ?rq NetworkError, Slept 1000, Fetched ?rq NetworkError, Slept 2000,
              Fetched ?rq NetworkError, Slept 4000, Fetched ?rq NetworkError]"
    by (simp add: ft s3_def s2_def s1_def backoffMs_def)
  with res show ?thesis by blast
qed

section \<open>The claims about getPostsForDay\<close>

text \<open>
  Claim C4 as the specification states it counts retries for every page fetch: a page
  fetch that fails is tried again up to three times, and only its fourth failure in a row
  reaches the caller. The code counts per lookup. Against \<open>flakyFeed\<close> the first page is
  rejected three times, and that uses up the three retries; the fourth attempt gets the
  first page and then asks for the second page, whose fetch is rejected once. That single
  failure of the second page reaches the caller at once: the page is not fetched a second
  time and no wait follows.
\<close>

theorem per_page_retry_counterexample:
  "map_option (apsnd trace) (getPostsForDay flakyFeed ''alice'' 734400000 3 freshManager) =
   Some (Inl FetchFailed,
     [Fetched (feedRequest ''alice'' 100 None) NetworkError, Slept 1000,
      Fetched (feedRequest ''alice'' 100 None) NetworkError, Slept 2000,
      Fetched (feedRequest ''alice'' 100 None) NetworkError, Slept 4000,
      Fetched (feedRequest ''alice'' 100 None) (FeedPage [865800000, 820800000] (Some ''p2'')),
      Fetched (feedRequest ''alice'' 100 (Some ''p2'')) NetworkError])"
  by (simp add: run_defs)

text \<open>
  Claim C4, amended: what holds for every lookup that misses the cache and is called with
  the default three retries. The waits of the lookup are, in this order, the first \<open>n\<close>
  of 1000 ms, 2000 ms and 4000 ms, where \<open>n\<close> is at most 3; as many fetches were rejected
  as there were waits, plus one when the lookup ends with the error; and the lookup ends
  with the error only after all three waits, its last event being the rejected fetch, so
  that neither an attempt nor a wait follows the fourth failure. And a lookup does end so:
  when its four requests for the first page are rejected, it returns the error, and its
  events are request, 1000 ms, request, 2000 ms, request, 4000 ms, request.
\<close>

theorem lookup_backoff:
  "(cache s (h, getUTCDate date) = None \<and>
    (\<forall>i < 4. net e (nreq s + i) (feedRequest h 100 None) = NetworkError) \<longrightarrow>
      (\<exists>s'. getPostsForDay e h date 3 s = Some (Inl FetchFailed, s') \<and>
         trace s' = trace s @
           [Fetched (feedRequest h 100 None) NetworkError, Slept 1000,
            Fetched (feedRequest h 100 None) NetworkError, Slept 2000,
            Fetched (feedRequest h 100 None) NetworkError, Slept 4000,
            Fetched (feedRequest h 100 None) NetworkError])) \<and>
   (cache s (h, getUTCDate date) = None \<and> getPostsForDay e h date 3 s = Some (res, s') \<longrightarrow>
      (\<exists>new n. trace s' = trace s @ new \<and> n \<le> 3 \<and> delays new = take n [1000, 2000, 4000] \<and>
         length (filter failedFetch new) = n + (if isl res then 1 else 0) \<and>
         (isl res \<longrightarrow> n = 3 \<and> failedFetch (last new))))"
proof (intro conjI impI)
  assume "cache s (h, getUTCDate date) = None \<and>
    (\<forall>i < 4. net e (nreq s + i) (feedRequest h 100 None) = NetworkError)"
  then show "\<exists>s'. getPostsForDay e h date 3 s = Some (Inl FetchFailed, s') \<and>
         trace s' = trace s @
           [Fetched (feedRequest h 100 None) NetworkError, Slept 1000,
            Fetched (feedRequest h 100 None) NetworkError, Slept 2000,
            Fetched (feedRequest h 100 None) NetworkError, Slept 4000,
            Fetched (feedRequest h 100 None) NetworkError]"
    using four_rejections by blast
next
  assume a: "cache s (h, getUTCDate date) = None \<and> getPostsForDay e h date 3 s = Some (res, s')"
  then have unc: "cache s (h, getUTCDate date) = None"
    and r: "getPostsForDay e h date 3 s = Some (res, s')" by simp_all
  from getPostsForDay_trace[OF unc r] obtain new where
    n: "trace s' = trace s @ new" "lookupTrace (getUTCDate date) 3 res new" by blast
  from lookupTrace_delays[OF n(2)] obtain k where
    k: "k \<le> 3" "delays new = backoffSchedule 3 k"
       "length (filter failedFetch new) = k + (if isl res then 1 else 0)"
       "isl res \<longrightarrow> k = 3 \<and> failedFetch (last new)" by blast
  with n(1) backoffSchedule_3[OF k(1)]
  show "\<exists>new n. trace s' = trace s @ new \<and> n \<le> 3 \<and> delays new = take n [1000, 2000, 4000] \<and>
         length (filter failedFetch new) = n + (if isl res then 1 else 0) \<and>
         (isl res \<longrightarrow> n = 3 \<and> failedFetch (last new))"
    by metis
qed

theorem lookup_backoff_witness:
  "cache freshManager (''alice'', getUTCDate 734400000) = None \<and>
   net deadFeed (nreq freshManager + 3) (feedRequest ''alice'' 100 None) = NetworkError \<and>
   (\<exists>s'. getPostsForDay deadFeed ''alice'' 734400000 3 freshManager = Some (Inl FetchFailed, s') \<and>
      trace s' =
        [Fetched (feedRequest ''alice'' 100 None) NetworkError, Slept 1000,
         Fetched (feedRequest ''alice'' 100 None) NetworkError, Slept 2000,
         Fetched (feedRequest ''alice'' 100 None) NetworkError, Slept 4000,
         Fetched (feedRequest ''alice'' 100 None) NetworkError] \<and>
      delays (trace s') = [1000, 2000, 4000] \<and>
      length (filter failedFetch (trace s')) = 4 \<and>
      failedFetch (last (trace s')))"
proof -
  have rej: "\<forall>i < 4. net deadFeed (nreq freshManager + i) (feedRequest ''alice'' 100 None) = NetworkError"
    by (simp add: deadFeed_def)
  note inst = lookup_backoff[where s = freshManager and h = "''alice''" and date = 734400000
      and e = deadFeed and res = "Inl FetchFailed"]
  from inst fresh_uncached rej obtain s' where
    r: "getPostsForDay deadFeed ''alice'' 734400000 3 freshManager = Some (Inl FetchFailed, s')"
    and t: "trace s' = trace freshManager @
        [Fetched (feedRequest ''alice'' 100 None) NetworkError, Slept 1000,
         Fetched (feedRequest ''alice'' 100 None) NetworkError, Slept 2000,
         Fetched (feedRequest ''alice'' 100 None) NetworkError, Slept 4000,
         Fetched (feedRequest ''alice'' 100 None) NetworkError]"
    by blast
  from inst[where s' = s'] fresh_uncached r obtain new n where
    n: "trace s' = trace freshManager @ new" "n \<le> 3" "delays new = take n [1000, 2000, 4000]"
       "length (filter failedFetch new) = n + (if isl (Inl FetchFailed :: error + bool) then 1 else 0)"
       "isl (Inl FetchFailed :: error + bool) \<longrightarrow> n = 3 \<and> failedFetch (last new)"
    by blast
  from n(5) have n3: "n = 3" and l: "failedFetch (last new)" by simp_all
  from n(1) have tn: "trace s' = new" by (simp add: freshManager_def)
  from t have t': "trace s' =
        [Fetched (feedRequest ''alice'' 100 None) NetworkError, Slept 1000,
         Fetched (feedRequest ''alice'' 100 None) NetworkError, Slept 2000,
         Fetched (feedRequest ''alice'' 100 None) NetworkError, Slept 4000,
         Fetched (feedRequest ''alice'' 100 None) NetworkError]"
    by (simp add: freshManager_def)
  from n(3) n(4) n3 l tn have "delays (trace s') = [1000, 2000, 4000]"
    "length (filter failedFetch (trace s')) = 4" "failedFetch (last (trace s'))" by simp_all
  moreover have "net deadFeed (nreq freshManager + 3) (feedRequest ''alice'' 100 None) = NetworkError"
    by (simp add: deadFeed_def)
  ultimately show ?thesis using r t' fresh_uncached by blast
qed

text \<open>
  Claim C5: once a call of \<open>getPostsForDay\<close> has returned a boolean for a handle and a
  day, a later call for the same handle and an instant of the same day returns the same
  boolean and the state it was given, whatever the service and the number of retries: it
  sends no request. This holds for true and for false.
\<close>

theorem lookup_idempotent:
  assumes "getPostsForDay e h date retries s = Some (Inr b, s')"
    and "getUTCDate date' = getUTCDate date"
  shows "getPostsForDay e' h date' retries' s' = Some (Inr b, s')"
proof (cases "cache s (h, getUTCDate date)")
  case None
  from getPostsForDay_trace[OF None assms(1)]
  have "cache s' (h, getUTCDate date') = Some b" using assms(2) by auto
  then show ?thesis by (rule getPostsForDay_cached)
next
  case (Some c)
  from getPostsForDay_cached[OF Some, of e retries] assms(1) have "c = b" "s' = s" by simp_all
  with Some assms(2) show ?thesis by (simp add: getPostsForDay_cached)
qed

theorem lookup_idempotent_witness:
  "getUTCDate 820800001 = getUTCDate 820800000 \<and>
   (\<exists>s'. getPostsForDay steadyFeed ''alice'' 820800000 3 freshManager = Some (Inr True, s') \<and>
          getPostsForDay deadFeed ''alice'' 820800001 0 s' = Some (Inr True, s')) \<and>
   (\<exists>s'. getPostsForDay steadyFeed ''alice'' 648000000 3 freshManager = Some (Inr False, s') \<and>
          getPostsForDay deadFeed ''alice'' 648000000 0 s' = Some (Inr False, s'))"
proof -
  have d: "getUTCDate 820800001 = getUTCDate 820800000"
    by (simp add: getUTCDate_def msPerDay_def)
  have "\<exists>s'. getPostsForDay steadyFeed ''alice'' 820800000 3 freshManager = Some (Inr True, s')"
    by (simp add: run_defs)
  then obtain s1 where
    r1: "getPostsForDay steadyFeed ''alice'' 820800000 3 freshManager = Some (Inr True, s1)" ..
  have "\<exists>s'. getPostsForDay steadyFeed ''alice'' 648000000 3 freshManager = Some (Inr False, s')"
    by (simp add: run_defs)
  then obtain s2 where
    r2: "getPostsForDay steadyFeed ''alice'' 648000000 3 freshManager = Some (Inr False, s2)" ..
  from lookup_idempotent[OF r1 d, of deadFeed 0] lookup_idempotent[OF r2 refl, of deadFeed 0] r1 r2 d
  show ?thesis by blast
qed

text \<open>
  Claim C6: wherever the pagination loop stands, when the page it fetches has a post of
  the day the loop returns true with the state that this one fetch left, and when the page
  has none and is empty or brings no cursor the loop returns false with that state. When
  the page has posts, none of the day, and a cursor, the loop goes on from the state the
  fetch left, with the cursor of the page; when the fetch is rejected the loop throws. So,
  in every lookup that misses the cache, a page with a post of the day, and likewise a
  page that is empty or brings no cursor, can only be the last event: nothing is requested
  after it; and every page that is not the last event is followed by the request for the
  page its cursor names. When the last page has a post of the day the answer is true; when
  it has none and is empty or without cursor the answer is false; a boolean answer always
  comes from such a last page, and a lookup that throws ends on a rejected fetch.
\<close>

theorem pagination_halts_at_first_match:
  "(fetchWithTimeout e (feedRequest h 100 (if truthy cur then cur else None)) s
      = (FeedPage posts c, s1) \<and> somePostOn target posts \<longrightarrow>
      paginate e h target cur s = Some (Inr True, s1)) \<and>
   (fetchWithTimeout e (feedRequest h 100 (if truthy cur then cur else None)) s
      = (FeedPage posts c, s1) \<and> \<not> somePostOn target posts \<and> (posts = [] \<or> \<not> truthy c) \<longrightarrow>
      paginate e h target cur s = Some (Inr False, s1)) \<and>
   (fetchWithTimeout e (feedRequest h 100 (if truthy cur then cur else None)) s
      = (FeedPage posts c, s1) \<and> \<not> somePostOn target posts \<and> posts \<noteq> [] \<and> truthy c \<longrightarrow>
      paginate e h target cur s = paginate e h target c s1) \<and>
   (fetchWithTimeout e (feedRequest h 100 (if truthy cur then cur else None)) s
      = (NetworkError, s1) \<longrightarrow>
      paginate e h target cur s = Some (Inl FetchFailed, s1)) \<and>
   (cache s (h, getUTCDate date) = None \<and> getPostsForDay e h date retries s = Some (res, s') \<longrightarrow>
      (\<exists>new. trace s' = trace s @ new \<and> new \<noteq> [] \<and>
         (\<forall>ev \<in> set (butlast new). \<not> pageHasPost (getUTCDate date) ev \<and> \<not> endOfFeed ev) \<and>
         cursorsFollow new \<and>
         (pageHasPost (getUTCDate date) (last new) \<longrightarrow> res = Inr True) \<and>
         (endOfFeed (last new) \<and> \<not> pageHasPost (getUTCDate date) (last new) \<longrightarrow> res = Inr False) \<and>
         (\<forall>b. res = Inr b \<longrightarrow> pageHasPost (getUTCDate date) (last new) \<or> endOfFeed (last new)) \<and>
         (\<forall>err. res = Inl err \<longrightarrow> failedFetch (last new))))"
proof (intro conjI impI)
  assume "fetchWithTimeout e (feedRequest h 100 (if truthy cur then cur else None)) s
      = (FeedPage posts c, s1) \<and> somePostOn target posts"
  then show "paginate e h target cur s = Some (Inr True, s1)"
    by (subst paginate.simps) (auto simp: somePostOn_def)
next
  assume "fetchWithTimeout e (feedRequest h 100 (if truthy cur then cur else None)) s
      = (FeedPage posts c, s1) \<and> \<not> somePostOn target posts \<and> (posts = [] \<or> \<not> truthy c)"
  then show "paginate e h target cur s = Some (Inr False, s1)"
    by (subst paginate.simps) auto
next
  assume "fetchWithTimeout e (feedRequest h 100 (if truthy cur then cur else None)) s
      = (FeedPage posts c, s1) \<and> \<not> somePostOn target posts \<and> posts \<noteq> [] \<and> truthy c"
  then show "paginate e h target cur s = paginate e h target c s1"
    by (subst paginate.simps) simp
next
  assume "fetchWithTimeout e (feedRequest h 100 (if truthy cur then cur else None)) s
      = (NetworkError, s1)"
  then show "paginate e h target cur s = Some (Inl FetchFailed, s1)"
    by (subst paginate.simps) simp
next
  assume a: "cache s (h, getUTCDate date) = None \<and> getPostsForDay e h date retries s = Some (res, s')"
  then have unc: "cache s (h, getUTCDate date) = None"
    and r: "getPostsForDay e h date retries s = Some (res, s')" by simp_all
  from getPostsForDay_trace[OF unc r] obtain new where
    n: "trace s' = trace s @ new" "lookupTrace (getUTCDate date) retries res new" by blast
  from lookupTrace_halts[OF n(2)] lookupTrace_nonempty[OF n(2)] lookupTrace_cursors[OF n(2)] n(1)
  show "\<exists>new. trace s' = trace s @ new \<and> new \<noteq> [] \<and>
         (\<forall>ev \<in> set (butlast new). \<not> pageHasPost (getUTCDate date) ev \<and> \<not> endOfFeed ev) \<and>
         cursorsFollow new \<and>
         (pageHasPost (getUTCDate date) (last new) \<longrightarrow> res = Inr True) \<and>
         (endOfFeed (last new) \<and> \<not> pageHasPost (getUTCDate date) (last new) \<longrightarrow> res = Inr False) \<and>
         (\<forall>b. res = Inr b \<longrightarrow> pageHasPost (getUTCDate date) (last new) \<or> endOfFeed (last new)) \<and>
         (\<forall>err. res = Inl err \<longrightarrow> failedFetch (last new))"
    by (intro exI[of _ new]) (auto split: sum.splits dest: failedFetch_not_page)
qed

theorem pagination_halts_at_first_match_witness:
  "(\<exists>s1. fetchWithTimeout steadyFeed (feedRequest ''alice'' 100 None) freshManager
            = (FeedPage [865800000, 820800000] (Some ''p2''), s1) \<and>
          somePostOn 9 [865800000, 820800000] \<and>
          paginate steadyFeed ''alice'' 9 None freshManager = Some (Inr True, s1)) \<and>
   (\<exists>s1. fetchWithTimeout steadyFeed (feedRequest ''alice'' 100 (Some ''p2'')) freshManager
            = (FeedPage [734400000] None, s1) \<and>
          \<not> somePostOn 7 [734400000] \<and> \<not> truthy None \<and>
          paginate steadyFeed ''alice'' 7 (Some ''p2'') freshManager = Some (Inr False, s1)) \<and>
   (\<exists>s1 s2. fetchWithTimeout steadyFeed (feedRequest ''alice'' 100 None) freshManager
            = (FeedPage [865800000, 820800000] (Some ''p2''), s1) \<and>
          \<not> somePostOn 8 [865800000, 820800000] \<and> truthy (Some ''p2'') \<and>
          paginate steadyFeed ''alice'' 8 None freshManager
            = paginate steadyFeed ''alice'' 8 (Some ''p2'') s1 \<and>
          fetchWithTimeout steadyFeed (feedRequest ''alice'' 100 (Some ''p2'')) s1
            = (FeedPage [734400000] None, s2) \<and>
          somePostOn 8 [734400000] \<and>
          paginate steadyFeed ''alice'' 8 None freshManager = Some (Inr True, s2) \<and>
          nreq s2 = nreq freshManager + 2) \<and>
   (\<exists>s1. fetchWithTimeout deadFeed (feedRequest ''alice'' 100 None) freshManager
            = (NetworkError, s1) \<and>
          paginate deadFeed ''alice'' 9 None freshManager = Some (Inl FetchFailed, s1)) \<and>
   cache freshManager (''alice'', getUTCDate 820800000) = None \<and>
   (\<exists>s'. getPostsForDay steadyFeed ''alice'' 820800000 3 freshManager = Some (Inr True, s') \<and>
      trace s' = [Fetched (feedRequest ''alice'' 100 None)
                    (FeedPage [865800000, 820800000] (Some ''p2''))] \<and>
      pageHasPost (getUTCDate 820800000) (last (trace s'))) \<and>
   cache freshManager (''alice'', getUTCDate 734400000) = None \<and>
   (\<exists>s'. getPostsForDay steadyFeed ''alice'' 734400000 3 freshManager = Some (Inr True, s') \<and>
      trace s' = [Fetched (feedRequest ''alice'' 100 None)
                    (FeedPage [865800000, 820800000] (Some ''p2'')),
                  Fetched (feedRequest ''alice'' 100 (Some ''p2''))
                    (FeedPage [734400000] None)] \<and>
      cursorsFollow (trace s') \<and>
      pageHasPost (getUTCDate 734400000) (last (trace s'))) \<and>
   cache freshManager (''alice'', getUTCDate 820800000) = None \<and>
   (\<exists>s'. getPostsForDay deadFeed ''alice'' 820800000 0 freshManager
            = Some (Inl FetchFailed, s') \<and>
      failedFetch (last (trace s')))"
proof -
  have "\<exists>s1. fetchWithTimeout steadyFeed (feedRequest ''alice'' 100 None) freshManager
            = (FeedPage [865800000, 820800000] (Some ''p2''), s1)"
    by (simp add: run_defs)
  then obtain s1 where f1: "fetchWithTimeout steadyFeed (feedRequest ''alice'' 100 None) freshManager
            = (FeedPage [865800000, 820800000] (Some ''p2''), s1)" ..
  have m1: "somePostOn 9 [865800000, 820800000]"
    by (simp add: somePostOn_def getUTCDate_def msPerDay_def)
  have "\<exists>s1. fetchWithTimeout steadyFeed (feedRequest ''alice'' 100 (Some ''p2'')) freshManager
            = (FeedPage [734400000] None, s1)"
    by (simp add: run_defs)
  then obtain s2 where f2: "fetchWithTimeout steadyFeed (feedRequest ''alice'' 100 (Some ''p2''))
      freshManager = (FeedPage [734400000] None, s2)" ..
  have m2: "\<not> somePostOn 7 [734400000]" "\<not> truthy None"
    by (simp_all add: somePostOn_def getUTCDate_def msPerDay_def)
  from pagination_halts_at_first_match[where e = steadyFeed and h = "''alice''" and cur = None
      and s = freshManager and posts = "[865800000, 820800000]" and c = "Some ''p2''"
      and ?s1.0 = s1 and target = 9] f1 m1
  have p1: "paginate steadyFeed ''alice'' 9 None freshManager = Some (Inr True, s1)" by simp
  from pagination_halts_at_first_match[where e = steadyFeed and h = "''alice''"
      and cur = "Some ''p2''" and s = freshManager and posts = "[734400000]" and c = None
      and ?s1.0 = s2 and target = 7] f2 m2
  have p2: "paginate steadyFeed ''alice'' 7 (Some ''p2'') freshManager = Some (Inr False, s2)"
    by simp
  have m3: "\<not> somePostOn 8 [865800000, 820800000]" "truthy (Some ''p2'')"
    "somePostOn 8 [734400000]"
    by (simp_all add: somePostOn_def getUTCDate_def msPerDay_def)
  have "\<exists>s3. fetchWithTimeout steadyFeed (feedRequest ''alice'' 100 (Some ''p2'')) s1
            = (FeedPage [734400000] None, s3)"
    by (simp add: run_defs)
  then obtain s3 where f3: "fetchWithTimeout steadyFeed (feedRequest ''alice'' 100 (Some ''p2'')) s1
            = (FeedPage [734400000] None, s3)" ..
  from pagination_halts_at_first_match[where e = steadyFeed and h = "''alice''" and cur = None
      and s = freshManager and posts = "[865800000, 820800000]" and c = "Some ''p2''"
      and ?s1.0 = s1 and target = 8] f1 m3
  have p3: "paginate steadyFeed ''alice'' 8 None freshManager
              = paginate steadyFeed ''alice'' 8 (Some ''p2'') s1" by simp
  from pagination_halts_at_first_match[where e = steadyFeed and h = "''alice''"
      and cur = "Some ''p2''" and s = s1 and posts = "[734400000]" and c = None
      and ?s1.0 = s3 and target = 8] f3 m3
  have p4: "paginate steadyFeed ''alice'' 8 (Some ''p2'') s1 = Some (Inr True, s3)" by simp
  with p3 have p5: "paginate steadyFeed ''alice'' 8 None freshManager = Some (Inr True, s3)"
    by simp
  from f1 have n1: "nreq s1 = nreq freshManager + 1"
    by (auto simp: fetchWithTimeout_def Let_def split: if_splits)
  from f3 have "nreq s3 = nreq s1 + 1"
    by (auto simp: fetchWithTimeout_def Let_def split: if_splits)
  with n1 have n3: "nreq s3 = nreq freshManager + 2" by simp
  have "\<exists>s4. fetchWithTimeout deadFeed (feedRequest ''alice'' 100 None) freshManager
            = (NetworkError, s4)"
    by (simp add: run_defs)
  then obtain s4 where f4: "fetchWithTimeout deadFeed (feedRequest ''alice'' 100 None) freshManager
            = (NetworkError, s4)" ..
  from pagination_halts_at_first_match[where e = deadFeed and h = "''alice''" and cur = None
      and s = freshManager and ?s1.0 = s4 and target = 9] f4
  have p6: "paginate deadFeed ''alice'' 9 None freshManager = Some (Inl FetchFailed, s4)" by simp
  have "\<exists>s'. getPostsForDay steadyFeed ''alice'' 820800000 3 freshManager = Some (Inr True, s') \<and>
          trace s' = [Fetched (feedRequest ''alice'' 100 None)
                        (FeedPage [865800000, 820800000] (Some ''p2''))]"
    by (simp add: run_defs)
  then obtain s' where
    r: "getPostsForDay steadyFeed ''alice'' 820800000 3 freshManager = Some (Inr True, s')"
    and t: "trace s' = [Fetched (feedRequest ''alice'' 100 None)
                          (FeedPage [865800000, 820800000] (Some ''p2''))]" by blast
  from pagination_halts_at_first_match[where s = freshManager and h = "''alice''"
      and date = 820800000 and e = steadyFeed and retries = 3 and res = "Inr True" and s' = s']
    fresh_uncached r
  obtain new where
    n: "trace s' = trace freshManager @ new"
       "\<forall>b. (Inr True :: error + bool) = Inr b \<longrightarrow>
          pageHasPost (getUTCDate 820800000) (last new) \<or> endOfFeed (last new)"
    by blast
  from n(1) have tn: "new = trace s'" by (simp add: freshManager_def)
  from n(2) have "pageHasPost (getUTCDate 820800000) (last new) \<or> endOfFeed (last new)" by blast
  moreover have "\<not> endOfFeed (last (trace s'))" unfolding t by simp
  ultimately have one: "pageHasPost (getUTCDate 820800000) (last (trace s'))" using tn by simp
  have u8: "cache freshManager (''alice'', getUTCDate 734400000) = None"
    by (simp add: freshManager_def)
  have "\<exists>s'. getPostsForDay steadyFeed ''alice'' 734400000 3 freshManager = Some (Inr True, s') \<and>
          trace s' = [Fetched (feedRequest ''alice'' 100 None)
                        (FeedPage [865800000, 820800000] (Some ''p2'')),
                      Fetched (feedRequest ''alice'' 100 (Some ''p2''))
                        (FeedPage [734400000] None)]"
    by (simp add: run_defs)
  then obtain s'' where
    r8: "getPostsForDay steadyFeed ''alice'' 734400000 3 freshManager = Some (Inr True, s'')"
    and t8: "trace s'' = [Fetched (feedRequest ''alice'' 100 None)
                            (FeedPage [865800000, 820800000] (Some ''p2'')),
                          Fetched (feedRequest ''alice'' 100 (Some ''p2''))
                            (FeedPage [734400000] None)]" by blast
  from pagination_halts_at_first_match[where s = freshManager and h = "''alice''"
      and date = 734400000 and e = steadyFeed and retries = 3 and res = "Inr True" and s' = s'']
    u8 r8
  obtain new8 where
    n8: "trace s'' = trace freshManager @ new8" "cursorsFollow new8"
       "\<forall>b. (Inr True :: error + bool) = Inr b \<longrightarrow>
          pageHasPost (getUTCDate 734400000) (last new8) \<or> endOfFeed (last new8)"
    by blast
  from n8(1) have tn8: "new8 = trace s''" by (simp add: freshManager_def)
  from n8(2) tn8 have cf8: "cursorsFollow (trace s'')" by simp
  from n8(3) have "pageHasPost (getUTCDate 734400000) (last new8) \<or> endOfFeed (last new8)"
    by blast
  then have two: "pageHasPost (getUTCDate 734400000) (last (trace s''))"
    unfolding tn8 t8 by (simp add: somePostOn_def getUTCDate_def msPerDay_def)
  have "\<exists>s'. getPostsForDay deadFeed ''alice'' 820800000 0 freshManager
            = Some (Inl FetchFailed, s')"
    by (simp add: run_defs)
  then obtain sd where
    rd: "getPostsForDay deadFeed ''alice'' 820800000 0 freshManager = Some (Inl FetchFailed, sd)" ..
  from pagination_halts_at_first_match[where s = freshManager and h = "''alice''"
      and date = 820800000 and e = deadFeed and retries = 0 and res = "Inl FetchFailed"
      and s' = sd] fresh_uncached rd
  obtain newd where
    nd: "trace sd = trace freshManager @ newd"
       "\<forall>err. (Inl FetchFailed :: error + bool) = Inl err \<longrightarrow> failedFetch (last newd)"
    by blast
  from nd(1) have "newd = trace sd" by (simp add: freshManager_def)
  with nd(2) have three: "failedFetch (last (trace sd))" by simp
  have w3: "\<exists>s1 s2. fetchWithTimeout steadyFeed (feedRequest ''alice'' 100 None) freshManager
            = (FeedPage [865800000, 820800000] (Some ''p2''), s1) \<and>
          \<not> somePostOn 8 [865800000, 820800000] \<and> truthy (Some ''p2'') \<and>
          paginate steadyFeed ''alice'' 8 None freshManager
            = paginate steadyFeed ''alice'' 8 (Some ''p2'') s1 \<and>
          fetchWithTimeout steadyFeed (feedRequest ''alice'' 100 (Some ''p2'')) s1
            = (FeedPage [734400000] None, s2) \<and>
          somePostOn 8 [734400000] \<and>
          paginate steadyFeed ''alice'' 8 None freshManager = Some (Inr True, s2) \<and>
          nreq s2 = nreq freshManager + 2"
    using f1 m3 p3 f3 p5 n3 by blast
  have w1: "\<exists>s1. fetchWithTimeout steadyFeed (feedRequest ''alice'' 100 None) freshManager
            = (FeedPage [865800000, 820800000] (Some ''p2''), s1) \<and>
          somePostOn 9 [865800000, 820800000] \<and>
          paginate steadyFeed ''alice'' 9 None freshManager = Some (Inr True, s1)"
    using f1 m1 p1 by blast
  have w2: "\<exists>s1. fetchWithTimeout steadyFeed (feedRequest ''alice'' 100 (Some ''p2'')) freshManager
            = (FeedPage [734400000] None, s1) \<and>
          \<not> somePostOn 7 [734400000] \<and> \<not> truthy None \<and>
          paginate steadyFeed ''alice'' 7 (Some ''p2'') freshManager = Some (Inr False, s1)"
    using f2 m2 p2 by blast
  have w4: "\<exists>s1. fetchWithTimeout deadFeed (feedRequest ''alice'' 100 None) freshManager
            = (NetworkError, s1) \<and>
          paginate deadFeed ''alice'' 9 None freshManager = Some (Inl FetchFailed, s1)"
    using f4 p6 by blast
  have w5: "\<exists>s'. getPostsForDay steadyFeed ''alice'' 820800000 3 freshManager = Some (Inr True, s') \<and>
      trace s' = [Fetched (feedRequest ''alice'' 100 None)
                    (FeedPage [865800000, 820800000] (Some ''p2''))] \<and>
      pageHasPost (getUTCDate 820800000) (last (trace s'))"
    using r t one by blast
  have w6: "\<exists>s'. getPostsForDay steadyFeed ''alice'' 734400000 3 freshManager = Some (Inr True, s') \<and>
      trace s' = [Fetched (feedRequest ''alice'' 100 None)
                    (FeedPage [865800000, 820800000] (Some ''p2'')),
                  Fetched (feedRequest ''alice'' 100 (Some ''p2''))
                    (FeedPage [734400000] None)] \<and>
      cursorsFollow (trace s') \<and>
      pageHasPost (getUTCDate 734400000) (last (trace s'))"
    using r8 t8 cf8 two by blast
  have w7: "\<exists>s'. getPostsForDay deadFeed ''alice'' 820800000 0 freshManager
            = Some (Inl FetchFailed, s') \<and>
      failedFetch (last (trace s'))"
    using rd three by blast
  from w1 w2 w3 w4 fresh_uncached w5 u8 w6 w7 show ?thesis by simp
qed

text \<open>
  Claim C9: when the \<open>try\<close> body of a lookup throws, at whatever page, and a retry is
  left, the lookup is \<open>getPostsForDay\<close> called again after the wait with one retry less:
  the cursor reached is not passed on. In every lookup that misses the cache, the first
  request carries no cursor, and every rejected fetch that is not the last event is
  followed by a wait and then by a request without cursor, whatever cursor the rejected
  request carried: the retry starts again at the first page. The rejected fetches of the
  whole lookup, over all its pages, number at most \<open>retries + 1\<close>: the pages share one
  budget.
\<close>

theorem retry_restarts_whole_lookup:
  "(cache s (h, getUTCDate date) = None \<and>
    tryLookup e h (getUTCDate date) s = Some (Inl err, s1) \<and> retries > 0 \<longrightarrow>
      getPostsForDay e h date retries s =
        getPostsForDay e h date (retries - 1) (sleep (backoffMs retries) s1)) \<and>
   (cache s (h, getUTCDate date) = None \<and> getPostsForDay e h date retries s = Some (res, s') \<longrightarrow>
      (\<exists>new. trace s' = trace s @ new \<and> new \<noteq> [] \<and> isFetch (hd new) \<and>
         requestCursor (hd new) = None \<and> restartsAfterFailure new \<and>
         length (filter failedFetch new) \<le> retries + 1))"
proof (intro conjI impI)
  assume "cache s (h, getUTCDate date) = None \<and>
    tryLookup e h (getUTCDate date) s = Some (Inl err, s1) \<and> retries > 0"
  then show "getPostsForDay e h date retries s =
        getPostsForDay e h date (retries - 1) (sleep (backoffMs retries) s1)"
    by (simp add: getPostsForDay_uncached)
next
  assume "cache s (h, getUTCDate date) = None \<and> getPostsForDay e h date retries s = Some (res, s')"
  then have unc: "cache s (h, getUTCDate date) = None"
    and r: "getPostsForDay e h date retries s = Some (res, s')" by simp_all
  from getPostsForDay_trace[OF unc r] obtain new where
    n: "trace s' = trace s @ new" "lookupTrace (getUTCDate date) retries res new" by blast
  from lookupTrace_delays[OF n(2)] have "length (filter failedFetch new) \<le> retries + 1"
    by auto
  with n(1) lookupTrace_first[OF n(2)] lookupTrace_restarts[OF n(2)]
  show "\<exists>new. trace s' = trace s @ new \<and> new \<noteq> [] \<and> isFetch (hd new) \<and>
         requestCursor (hd new) = None \<and> restartsAfterFailure new \<and>
         length (filter failedFetch new) \<le> retries + 1"
    by blast
qed

theorem retry_restarts_whole_lookup_witness:
  "cache freshManager (''alice'', getUTCDate 734400000) = None \<and> (3::nat) > 0 \<and>
   (\<exists>s1. tryLookup hiccupFeed ''alice'' (getUTCDate 734400000) freshManager
            = Some (Inl FetchFailed, s1) \<and>
          trace s1 =
            [Fetched (feedRequest ''alice'' 100 None) (FeedPage [865800000, 820800000] (Some ''p2'')),
             Fetched (feedRequest ''alice'' 100 (Some ''p2'')) NetworkError] \<and>
          getPostsForDay hiccupFeed ''alice'' 734400000 3 freshManager =
            getPostsForDay hiccupFeed ''alice'' 734400000 (3 - 1) (sleep (backoffMs 3) s1)) \<and>
   (\<exists>s'. getPostsForDay hiccupFeed ''alice'' 734400000 3 freshManager = Some (Inr True, s') \<and>
      trace s' =
        [Fetched (feedRequest ''alice'' 100 None) (FeedPage [865800000, 820800000] (Some ''p2'')),
         Fetched (feedRequest ''alice'' 100 (Some ''p2'')) NetworkError,
         Slept 1000,
         Fetched (feedRequest ''alice'' 100 None) (FeedPage [865800000, 820800000] (Some ''p2'')),
         Fetched (feedRequest ''alice'' 100 (Some ''p2'')) (FeedPage [734400000] None)] \<and>
      (\<exists>new. trace s' = trace freshManager @ new \<and> new \<noteq> [] \<and> isFetch (hd new) \<and>
         requestCursor (hd new) = None \<and> restartsAfterFailure new \<and>
         length (filter failedFetch new) \<le> 3 + 1))"
proof -
  have "\<exists>s1. tryLookup hiccupFeed ''alice'' (getUTCDate 734400000) freshManager
            = Some (Inl FetchFailed, s1) \<and>
          trace s1 =
            [Fetched (feedRequest ''alice'' 100 None) (FeedPage [865800000, 820800000] (Some ''p2'')),
             Fetched (feedRequest ''alice'' 100 (Some ''p2'')) NetworkError]"
    by (simp add: run_defs)
  then obtain s1 where
    t1: "tryLookup hiccupFeed ''alice'' (getUTCDate 734400000) freshManager
            = Some (Inl FetchFailed, s1)"
    and tr1: "trace s1 =
            [Fetched (feedRequest ''alice'' 100 None) (FeedPage [865800000, 820800000] (Some ''p2'')),
             Fetched (feedRequest ''alice'' 100 (Some ''p2'')) NetworkError]" by blast
  have "\<exists>s'. getPostsForDay hiccupFeed ''alice'' 734400000 3 freshManager = Some (Inr True, s') \<and>
      trace s' =
        [Fetched (feedRequest ''alice'' 100 None) (FeedPage [865800000, 820800000] (Some ''p2'')),
         Fetched (feedRequest ''alice'' 100 (Some ''p2'')) NetworkError,
         Slept 1000,
         Fetched (feedRequest ''alice'' 100 None) (FeedPage [865800000, 820800000] (Some ''p2'')),
         Fetched (feedRequest ''alice'' 100 (Some ''p2'')) (FeedPage [734400000] None)]"
    by (simp add: run_defs)
  then obtain s' where
    r: "getPostsForDay hiccupFeed ''alice'' 734400000 3 freshManager = Some (Inr True, s')"
    and t: "trace s' =
        [Fetched (feedRequest ''alice'' 100 None) (FeedPage [865800000, 820800000] (Some ''p2'')),
         Fetched (feedRequest ''alice'' 100 (Some ''p2'')) NetworkError,
         Slept 1000,
         Fetched (feedRequest ''alice'' 100 None) (FeedPage [865800000, 820800000] (Some ''p2'')),
         Fetched (feedRequest ''alice'' 100 (Some ''p2'')) (FeedPage [734400000] None)]" by blast
  note inst = retry_restarts_whole_lookup[where s = freshManager and h = "''alice''"
      and date = 734400000 and e = hiccupFeed and retries = 3 and err = FetchFailed
      and ?s1.0 = s1 and res = "Inr True" and s' = s']
  have pos: "(3::nat) > 0" by simp
  from inst fresh_uncached t1 pos
  have a: "getPostsForDay hiccupFeed ''alice'' 734400000 3 freshManager =
            getPostsForDay hiccupFeed ''alice'' 734400000 (3 - 1) (sleep (backoffMs 3) s1)"
    by blast
  from inst fresh_uncached r
  have b: "\<exists>new. trace s' = trace freshManager @ new \<and> new \<noteq> [] \<and> isFetch (hd new) \<and>
         requestCursor (hd new) = None \<and> restartsAfterFailure new \<and>
         length (filter failedFetch new) \<le> 3 + 1"
    by blast
  from fresh_uncached pos t1 tr1 a r t b show ?thesis by blast
qed

text \<open>
  Claim C10: when \<open>getPostsForDay\<close> ends with the error, the cache is the one it started
  with and holds nothing for the handle and the day; any later call for that pair that
  returns has sent a request, starting at the first page.
\<close>

theorem failed_lookup_not_memoized:
  assumes "getPostsForDay e h date retries s = Some (Inl err, s')"
  shows "cache s' = cache s \<and> cache s' (h, getUTCDate date) = None \<and>
         (\<forall>e' retries' res s''.
            getPostsForDay e' h date retries' s' = Some (res, s'') \<longrightarrow>
            (\<exists>new. trace s'' = trace s' @ new \<and> new \<noteq> [] \<and> isFetch (hd new) \<and>
                    requestCursor (hd new) = None))"
proof -
  have unc: "cache s (h, getUTCDate date) = None"
  proof (cases "cache s (h, getUTCDate date)")
    case (Some c)
    from getPostsForDay_cached[OF Some, of e retries] assms show ?thesis by simp
  qed simp
  from getPostsForDay_trace[OF unc assms] have c: "cache s' = cache s" by auto
  with unc have unc': "cache s' (h, getUTCDate date) = None" by simp
  have "\<exists>new. trace s'' = trace s' @ new \<and> new \<noteq> [] \<and> isFetch (hd new) \<and>
              requestCursor (hd new) = None"
    if "getPostsForDay e' h date retries' s' = Some (res, s'')" for e' retries' res s''
  proof -
    from getPostsForDay_trace[OF unc' that] obtain new where
      "trace s'' = trace s' @ new" "lookupTrace (getUTCDate date) retries' res new" by blast
    with lookupTrace_first[of "getUTCDate date" retries' res new] show ?thesis by blast
  qed
  with c unc' show ?thesis by blast
qed

theorem failed_lookup_not_memoized_witness:
  "\<exists>s'. getPostsForDay deadFeed ''alice'' 820800000 3 freshManager = Some (Inl FetchFailed, s') \<and>
      cache s' = cache freshManager \<and> cache s' (''alice'', getUTCDate 820800000) = None \<and>
      (\<exists>s''. getPostsForDay steadyFeed ''alice'' 820800000 3 s' = Some (Inr True, s'') \<and>
         (\<exists>new. trace s'' = trace s' @ new \<and> new \<noteq> [] \<and> isFetch (hd new) \<and>
                 requestCursor (hd new) = None))"
proof -
  have "\<exists>s'. getPostsForDay deadFeed ''alice'' 820800000 3 freshManager = Some (Inl FetchFailed, s') \<and>
          (\<exists>s''. getPostsForDay steadyFeed ''alice'' 820800000 3 s' = Some (Inr True, s''))"
    by (simp add: run_defs)
  then obtain s' s'' where
    r: "getPostsForDay deadFeed ''alice'' 820800000 3 freshManager = Some (Inl FetchFailed, s')"
    and r': "getPostsForDay steadyFeed ''alice'' 820800000 3 s' = Some (Inr True, s'')" by blast
  from failed_lookup_not_memoized[OF r] r r' show ?thesis by blast
qed

section \<open>calculateStreak and checkRecentPostsForToday\<close>



lemma showError_fields [simp]:
  "cache (showError e msg s) = cache s"
  "storage (showError e msg s) = storage s"
  "isRefreshing (showError e msg s) = isRefreshing s"
  "debouncePending (showError e msg s) = debouncePending s"
  "nreq (showError e msg s) = nreq s"
  "trace (showError e msg s) = trace s"
  "clock (showError e msg s) = clock s"
  by (simp_all add: showError_def)











lemmas streak_defs = calculateStreak_def calculateStreak_content_def streakLoop.simps
  previousDay_def localTime_def utcOfLocal_def showError_def todayOnlyFeed_def
  londonFeed_def londonManager_def




text \<open>
  Claim C8: \<open>checkRecentPostsForToday\<close> always returns, after exactly one request, for 5
  posts without replies and without cursor; the cache is not touched. When the request is
  rejected the answer is false; otherwise it is true exactly when some post of the page
  lies on the UTC day that the clock shows once the answer has arrived.
\<close>

theorem today_check_single_fetch:
  "\<exists>r. trace (snd (checkRecentPostsForToday e h s)) =
          trace s @ [Fetched \<lparr>req_actor = h, req_limit = 5, req_filter = ''posts_no_replies'',
                               req_cursor = None\<rparr> r] \<and>
        nreq (snd (checkRecentPostsForToday e h s)) = Suc (nreq s) \<and>
        cache (snd (checkRecentPostsForToday e h s)) = cache s \<and>
        fst (checkRecentPostsForToday e h s) =
          (case r of
             NetworkError \<Rightarrow> False
           | FeedPage posts c \<Rightarrow>
               (\<exists>p \<in> set posts.
                  getUTCDate p = getUTCDate (clock (snd (checkRecentPostsForToday e h s)))))"
proof -
  obtain r s1 where f: "fetchWithTimeout e (feedRequest h 5 None) s = (r, s1)"
    by (cases "fetchWithTimeout e (feedRequest h 5 None) s")
  have tr1: "trace s1 = trace s @ [Fetched (feedRequest h 5 None) r]"
    and c1: "cache s1 = cache s" and n1: "nreq s1 = Suc (nreq s)"
    using fetch_fields(7)[of e "feedRequest h 5 None" s]
      fetch_fields(1)[of e "feedRequest h 5 None" s]
      fetch_fields(6)[of e "feedRequest h 5 None" s]
    by (simp_all add: f)
  show ?thesis
  proof (cases r)
    case NetworkError
    with f tr1 c1 n1 show ?thesis
      by (intro exI[of _ r]) (simp add: checkRecentPostsForToday_def feedRequest_def)
  next
    case (FeedPage posts c)
    with f tr1 c1 n1 show ?thesis
      by (intro exI[of _ r])
        (simp add: checkRecentPostsForToday_def feedRequest_def somePostOn_def list_ex_iff)
  qed
qed

theorem today_check_single_fetch_witness:
  "fst (checkRecentPostsForToday steadyFeed ''alice'' freshManager) = True \<and>
   fst (checkRecentPostsForToday deadFeed ''alice'' freshManager) = False \<and>
   (\<exists>r. trace (snd (checkRecentPostsForToday deadFeed ''alice'' freshManager)) =
          trace freshManager @ [Fetched \<lparr>req_actor = ''alice'', req_limit = 5,
                                          req_filter = ''posts_no_replies'', req_cursor = None\<rparr> r] \<and>
        nreq (snd (checkRecentPostsForToday deadFeed ''alice'' freshManager)) = Suc (nreq freshManager) \<and>
        cache (snd (checkRecentPostsForToday deadFeed ''alice'' freshManager)) = cache freshManager \<and>
        fst (checkRecentPostsForToday deadFeed ''alice'' freshManager) =
          (case r of
             NetworkError \<Rightarrow> False
           | FeedPage posts c \<Rightarrow>
               (\<exists>p \<in> set posts.
                  getUTCDate p =
                  getUTCDate (clock (snd (checkRecentPostsForToday deadFeed ''alice'' freshManager))))))"
proof -
  have "fst (checkRecentPostsForToday steadyFeed ''alice'' freshManager) = True"
    by (simp add: run_defs checkRecentPostsForToday_def)
  moreover have "fst (checkRecentPostsForToday deadFeed ''alice'' freshManager) = False"
    by (simp add: run_defs checkRecentPostsForToday_def)
  ultimately show ?thesis
    using today_check_single_fetch[of deadFeed "''alice''" freshManager] by blast
qed

section \<open>The update sequence and the refresh\<close>

lemma no_streakElement_left: "filter (\<lambda>w. \<not> streakElement w) ws = []"
proof -
  have "streakElement w" for w by (cases w) simp_all
  then show ?thesis by simp
qed

lemma storage_idle [simp]: "s\<lparr>storage := storage s\<rparr> = s"
  by simp

lemma fetch_storage:
  "fetchWithTimeout e rq (s\<lparr>storage := x\<rparr>) =
     (fst (fetchWithTimeout e rq s), (snd (fetchWithTimeout e rq s))\<lparr>storage := x\<rparr>)"
  by (simp add: fetchWithTimeout_def Let_def)

lemma sleep_storage: "sleep ms (s\<lparr>storage := x\<rparr>) = (sleep ms s)\<lparr>storage := x\<rparr>"
  by (simp add: sleep_def)

lemma showError_storage: "showError e msg (s\<lparr>storage := x\<rparr>) = (showError e msg s)\<lparr>storage := x\<rparr>"
  by (simp add: showError_def)

lemma paginate_storage_imp:
  assumes "paginate e h target cur s = Some y"
  shows "paginate e h target cur (s\<lparr>storage := x\<rparr>) = Some (fst y, (snd y)\<lparr>storage := x\<rparr>)"
  using assms
proof (induction rule: paginate.raw_induct[rotated 1, consumes 1, case_names step])
  case (step paginate e h target cur s y)
  let ?rq = "feedRequest h 100 (if truthy cur then cur else None)"
  obtain r s1 where f: "fetchWithTimeout e ?rq s = (r, s1)"
    by (cases "fetchWithTimeout e ?rq s")
  then have f': "fetchWithTimeout e ?rq (s\<lparr>storage := x\<rparr>) = (r, s1\<lparr>storage := x\<rparr>)"
    by (simp add: fetch_storage)
  show ?case
  proof (cases r)
    case NetworkError
    with step(2) f have "y = (Inl FetchFailed, s1)" by simp
    with f' NetworkError show ?thesis by (subst paginate.simps) simp
  next
    case (FeedPage posts c)
    show ?thesis
    proof (cases "posts \<noteq> [] \<and> \<not> somePostOn target posts \<and> truthy c")
      case False
      with step(2) f FeedPage have "y = (Inr (somePostOn target posts), s1)"
        by (auto split: if_splits simp: somePostOn_def)
      with f' FeedPage False show ?thesis
        by (subst paginate.simps) (auto simp: somePostOn_def)
    next
      case True
      with step(2) f FeedPage have "paginate e h target c s1 = Some y" by simp
      from step(1)[OF this] f' FeedPage True show ?thesis
        by (subst paginate.simps) simp
    qed
  qed
qed

lemma paginate_storage:
  "paginate e h target cur (s\<lparr>storage := x\<rparr>) =
     map_option (\<lambda>y. (fst y, (snd y)\<lparr>storage := x\<rparr>)) (paginate e h target cur s)"
proof (cases "paginate e h target cur s")
  case (Some y)
  from paginate_storage_imp[OF Some] Some show ?thesis by simp
next
  case None
  have "paginate e h target cur (s\<lparr>storage := x\<rparr>) = None"
  proof (rule ccontr)
    assume "paginate e h target cur (s\<lparr>storage := x\<rparr>) \<noteq> None"
    then obtain y where "paginate e h target cur (s\<lparr>storage := x\<rparr>) = Some y" by blast
    from paginate_storage_imp[OF this, of "storage s"] None show False by simp
  qed
  with None show ?thesis by simp
qed

lemma tryLookup_storage:
  "tryLookup e h target (s\<lparr>storage := x\<rparr>) =
     map_option (\<lambda>y. (fst y, (snd y)\<lparr>storage := x\<rparr>)) (tryLookup e h target s)"
  by (cases "paginate e h target None s")
     (auto simp: tryLookup_def paginate_storage split: sum.splits)

lemma getPostsForDay_storage:
  "getPostsForDay e h date retries (s\<lparr>storage := x\<rparr>) =
     map_option (\<lambda>y. (fst y, (snd y)\<lparr>storage := x\<rparr>)) (getPostsForDay e h date retries s)"
proof (induction retries arbitrary: s)
  case 0
  show ?case
    by (subst (1 2) getPostsForDay.simps)
       (auto simp: tryLookup_storage split: option.splits sum.splits)
next
  case (Suc r)
  show ?case
    by (subst (1 2) getPostsForDay.simps)
       (auto simp: tryLookup_storage Suc sleep_storage split: option.splits sum.splits)
qed

lemma streakLoop_storage_imp:
  assumes "streakLoop e h date k s = Some y"
  shows "streakLoop e h date k (s\<lparr>storage := x\<rparr>) = Some (fst y, (snd y)\<lparr>storage := x\<rparr>)"
  using assms
proof (induction rule: streakLoop.raw_induct[rotated 1, consumes 1, case_names step])
  case (step streakLoop e h date k s y)
  from step(2) obtain res1 s1 where g: "getPostsForDay e h date 3 s = Some (res1, s1)"
    by (auto split: option.splits)
  then have g': "getPostsForDay e h date 3 (s\<lparr>storage := x\<rparr>) = Some (res1, s1\<lparr>storage := x\<rparr>)"
    by (simp add: getPostsForDay_storage)
  show ?case
  proof (cases res1)
    case (Inl err)
    with step(2) g g' show ?thesis
      by (subst streakLoop.simps) (auto simp: showError_storage)
  next
    case (Inr hasPosted)
    show ?thesis
    proof (cases hasPosted)
      case False
      with step(2) g g' Inr show ?thesis by (subst streakLoop.simps) auto
    next
      case True
      with step(2) g Inr have "streakLoop e h (previousDay e date) (Suc k) s1 = Some y" by simp
      from step(1)[OF this] g' Inr True show ?thesis by (subst streakLoop.simps) simp
    qed
  qed
qed

lemma streakLoop_storage:
  "streakLoop e h date k (s\<lparr>storage := x\<rparr>) =
     map_option (\<lambda>y. (fst y, (snd y)\<lparr>storage := x\<rparr>)) (streakLoop e h date k s)"
proof (cases "streakLoop e h date k s")
  case (Some y)
  from streakLoop_storage_imp[OF Some] Some show ?thesis by simp
next
  case None
  have "streakLoop e h date k (s\<lparr>storage := x\<rparr>) = None"
  proof (rule ccontr)
    assume "streakLoop e h date k (s\<lparr>storage := x\<rparr>) \<noteq> None"
    then obtain y where "streakLoop e h date k (s\<lparr>storage := x\<rparr>) = Some y" by blast
    from streakLoop_storage_imp[OF this, of "storage s"] None show False by simp
  qed
  with None show ?thesis by simp
qed

lemma calculateStreak_storage:
  "calculateStreak e h (s\<lparr>storage := x\<rparr>) =
     map_option (\<lambda>y. (fst y, (snd y)\<lparr>storage := x\<rparr>)) (calculateStreak e h s)"
  by (auto simp: calculateStreak_def Let_def getPostsForDay_storage streakLoop_storage
           split: option.splits sum.splits)

lemma checkRecent_storage:
  "checkRecentPostsForToday e h (s\<lparr>storage := x\<rparr>) =
     (fst (checkRecentPostsForToday e h s), (snd (checkRecentPostsForToday e h s))\<lparr>storage := x\<rparr>)"
  by (cases "fetchWithTimeout e (feedRequest h 5 None) s")
     (auto simp: checkRecentPostsForToday_def fetch_storage split: response.splits)

lemma loading_storage:
  "createLoadingIndicator (removeExistingStreakContainers (s\<lparr>storage := x\<rparr>)) =
     (createLoadingIndicator (removeExistingStreakContainers s))\<lparr>storage := x\<rparr>"
  by (simp add: createLoadingIndicator_def removeExistingStreakContainers_def)

lemma updateBody_storage:
  "updateBody e (s\<lparr>storage := x\<rparr>) =
     (case updateBody e s of
        None \<Rightarrow> None
      | Some (Inl err, s1) \<Rightarrow> Some (Inl err, s1\<lparr>storage := x\<rparr>)
      | Some (Inr u, s1) \<Rightarrow> Some (Inr u, s1))"
proof (cases "helpLink e")
  case False
  then show ?thesis by (simp add: updateBody_def)
next
  case True
  show ?thesis
  proof (cases "profileLink e")
    case None
    with True show ?thesis by (simp add: updateBody_def)
  next
    case (Some h)
    let ?s1 = "if \<not> isRefreshing s then createLoadingIndicator (removeExistingStreakContainers s) else s"
    obtain b s2 where c: "checkRecentPostsForToday e h ?s1 = (b, s2)"
      by (cases "checkRecentPostsForToday e h ?s1")
    have c': "checkRecentPostsForToday e h
                (if \<not> isRefreshing s
                 then createLoadingIndicator (removeExistingStreakContainers (s\<lparr>storage := x\<rparr>))
                 else s\<lparr>storage := x\<rparr>) = (b, s2\<lparr>storage := x\<rparr>)"
      using c by (simp add: loading_storage checkRecent_storage split: if_splits)
    show ?thesis
      using True Some c c'
      by (cases "calculateStreak e h s2")
         (auto simp: updateBody_def Let_def calculateStreak_storage
                     removeExistingStreakContainers_def createStreakDisplay_def
               split: sum.splits)
  qed
qed

lemma updateFunc_storage:
  "map_option (\<lambda>t. t\<lparr>storage := None\<rparr>) (updateFunc e (s\<lparr>storage := x\<rparr>)) =
   map_option (\<lambda>t. t\<lparr>storage := None\<rparr>) (updateFunc e s)"
  by (cases "updateBody e s")
     (auto simp: updateFunc_def updateBody_storage showError_storage split: sum.splits)

lemma computation_keeps_storage:
  assumes c: "checkRecentPostsForToday e h s1 = (b, s2)"
    and cs: "calculateStreak e h s2 = Some (r, s3)"
  shows "storage s3 = storage s1"
proof -
  from checkRecent_storage[of e h "storage s1" s1] c
  have "s2 = s2\<lparr>storage := storage s1\<rparr>" by simp
  from arg_cong[OF this, of storage] have one: "storage s2 = storage s1" by simp
  from calculateStreak_storage[of e h "storage s2" s2] cs
  have "s3 = s3\<lparr>storage := storage s2\<rparr>" by simp
  from arg_cong[OF this, of storage] have "storage s3 = storage s2" by simp
  with one show ?thesis by simp
qed

lemma todayDate_loading:
  "todayDate e (createLoadingIndicator (removeExistingStreakContainers s)) = todayDate e s"
  by (simp add: todayDate_def createLoadingIndicator_def removeExistingStreakContainers_def)

lemmas orchestrator_defs = updateFunc_def updateBody_def checkRecentPostsForToday_def
  createLoadingIndicator_def removeExistingStreakContainers_def createStreakDisplay_def
  refreshStreak_def refreshBody_def refreshPrepare_def updateOrInsertStreakInfo_def
  debounceFires_def shownManager_def midRefresh_def loadingManager_def storedManager_def
  keptManager_def noHelpFeed_def hiddenManager_def

lemmas content_defs = updateFunc_content_def updateBody_content_def finishUpdate_content_def
  updateOrInsertStreakInfo_content_def debounceFires_content_def refreshStreak_content_def
  todayDate_def getDate_def dayOfMonth_def moreThanADayApart_def isDayBefore_def
  lessThanDate_def strictEqualsDate_def

text \<open>
  Claim C2 as the specification states it fails twice. The update sequence of
  \<open>src/content.js\<close> reads the record: with a record of 7 dated today it sends no request
  and shows 7, where the same service, asked from a manager without record, gives 3. And
  in \<open>src/unnamed/part_000\<close> not every invocation recomputes: on a page without help
  link the sequence throws before any request and shows nothing.
\<close>

theorem update_without_recomputation_counterexample:
  "map_option nreq (updateFunc_content steadyFeed storedManager) = Some 0 \<and>
   map_option ui (updateFunc_content steadyFeed storedManager) = Some [Main (DayStreak 7) Arrows False] \<and>
   map_option ui (updateFunc_content steadyFeed freshManager) = Some [Main (DayStreak 3) Arrows True] \<and>
   nreq freshManager = 0 \<and>
   map_option nreq (updateFunc noHelpFeed freshManager) = Some 0 \<and>
   map_option ui (updateFunc noHelpFeed freshManager) = Some []"
  by (simp add: run_defs streak_defs orchestrator_defs content_defs)

text \<open>
  Claim C2, amended to say which revision and which invocations it holds for. In
  \<open>src/unnamed/part_000\<close> the record found when \<open>updateFunc\<close> starts has no influence:
  but for the record left behind, the run is the same from any record. Every run that
  finds the help link and the profile link and returns has run
  \<open>checkRecentPostsForToday\<close> and then \<open>calculateStreak\<close>, which leave the record as it
  was; what it shows and stores is the streak plus one when the check said true, and when
  \<open>calculateStreak\<close> threw it shows the error box and stores nothing. A run that finds
  no help link or no profile link goes from the state it started in straight to the error
  box: no request, no record written. In \<open>src/content.js\<close> a run that finds the two
  links and a record that holds today's date, as that revision writes it, sends no
  request and shows the stored number.
\<close>

theorem update_recomputes_and_never_reads_record:
  "map_option (\<lambda>t. t\<lparr>storage := None\<rparr>) (updateFunc e (s\<lparr>storage := x\<rparr>)) =
     map_option (\<lambda>t. t\<lparr>storage := None\<rparr>) (updateFunc e s) \<and>
   (helpLink e \<and> profileLink e = Some h \<and> updateFunc e s = Some t \<longrightarrow>
      (\<exists>b s2 r s3.
         checkRecentPostsForToday e h
           (if isRefreshing s then s
            else createLoadingIndicator (removeExistingStreakContainers s)) = (b, s2) \<and>
         calculateStreak e h s2 = Some (r, s3) \<and>
         storage s3 = storage s \<and>
         t = (case r of
                Inl err \<Rightarrow> showError e ''Failed to update streak. Please refresh.'' s3
              | Inr n \<Rightarrow>
                  createStreakDisplay (n + (if b then 1 else 0)) b
                    (removeExistingStreakContainers
                       (s3\<lparr>storage := Some \<lparr>streakDate = Some (clock s3),
                                              streakNumber = n + (if b then 1 else 0)\<rparr>\<rparr>))))) \<and>
   (\<not> helpLink e \<or> profileLink e = None \<longrightarrow>
      updateFunc e s = Some (showError e ''Failed to update streak. Please refresh.'' s)) \<and>
   (helpLink e \<and> profileLink e = Some h \<and> storage s = Some sr \<and>
    streakDate sr = Some (todayDate e s) \<longrightarrow>
      (\<exists>t' p. updateFunc_content e s = Some t' \<and> trace t' = trace s \<and> nreq t' = nreq s \<and>
         ui t' = [Main (DayStreak (streakNumber sr)) Arrows p]))"
proof (intro conjI impI)
  show "map_option (\<lambda>t. t\<lparr>storage := None\<rparr>) (updateFunc e (s\<lparr>storage := x\<rparr>)) =
     map_option (\<lambda>t. t\<lparr>storage := None\<rparr>) (updateFunc e s)"
    by (rule updateFunc_storage)
next
  assume a: "helpLink e \<and> profileLink e = Some h \<and> updateFunc e s = Some t"
  let ?s1 = "if isRefreshing s then s else createLoadingIndicator (removeExistingStreakContainers s)"
  obtain b s2 where c: "checkRecentPostsForToday e h ?s1 = (b, s2)"
    by (cases "checkRecentPostsForToday e h ?s1")
  have s1: "(if \<not> isRefreshing s then createLoadingIndicator (removeExistingStreakContainers s) else s) = ?s1"
    by simp
  from a c obtain r s3 where cs: "calculateStreak e h s2 = Some (r, s3)"
    by (cases "calculateStreak e h s2") (auto simp: updateFunc_def updateBody_def s1 Let_def)
  have "storage ?s1 = storage s"
    by (simp add: createLoadingIndicator_def removeExistingStreakContainers_def)
  with computation_keeps_storage[OF c cs] have st: "storage s3 = storage s" by simp
  from a c cs have "t = (case r of
                Inl err \<Rightarrow> showError e ''Failed to update streak. Please refresh.'' s3
              | Inr n \<Rightarrow>
                  createStreakDisplay (n + (if b then 1 else 0)) b
                    (removeExistingStreakContainers
                       (s3\<lparr>storage := Some \<lparr>streakDate = Some (clock s3),
                                              streakNumber = n + (if b then 1 else 0)\<rparr>\<rparr>)))"
    by (cases r) (auto simp: updateFunc_def updateBody_def s1 Let_def)
  with c cs st show "\<exists>b s2 r s3.
         checkRecentPostsForToday e h ?s1 = (b, s2) \<and>
         calculateStreak e h s2 = Some (r, s3) \<and>
         storage s3 = storage s \<and>
         t = (case r of
                Inl err \<Rightarrow> showError e ''Failed to update streak. Please refresh.'' s3
              | Inr n \<Rightarrow>
                  createStreakDisplay (n + (if b then 1 else 0)) b
                    (removeExistingStreakContainers
                       (s3\<lparr>storage := Some \<lparr>streakDate = Some (clock s3),
                                              streakNumber = n + (if b then 1 else 0)\<rparr>\<rparr>)))"
    by blast
next
  assume "\<not> helpLink e \<or> profileLink e = None"
  then show "updateFunc e s = Some (showError e ''Failed to update streak. Please refresh.'' s)"
    by (auto simp: updateFunc_def updateBody_def)
next
  assume a: "helpLink e \<and> profileLink e = Some h \<and> storage s = Some sr \<and>
    streakDate sr = Some (todayDate e s)"
  let ?s1 = "createLoadingIndicator (removeExistingStreakContainers s)"
  let ?n = "streakNumber sr"
  from a have st: "storage ?s1 = Some sr"
    by (simp add: createLoadingIndicator_def removeExistingStreakContainers_def)
  have near: "\<not> moreThanADayApart e (Some (todayDate e s)) (todayDate e s)"
    by (simp add: moreThanADayApart_def)
  from a st near have "updateFunc_content e s =
        Some (finishUpdate_content (todayDate e s) (Some (todayDate e s)) ?n False ?s1)"
    by (simp add: updateFunc_content_def updateBody_content_def Let_def lessThanDate_def
                  strictEqualsDate_def todayDate_loading)
  then show "\<exists>t' p. updateFunc_content e s = Some t' \<and> trace t' = trace s \<and> nreq t' = nreq s \<and>
         ui t' = [Main (DayStreak ?n) Arrows p]"
    by (auto simp add: finishUpdate_content_def createStreakDisplay_def createLoadingIndicator_def
                  removeExistingStreakContainers_def no_streakElement_left)
qed

theorem update_recomputes_and_never_reads_record_witness:
  "helpLink steadyFeed \<and> profileLink steadyFeed = Some ''alice'' \<and> \<not> helpLink noHelpFeed \<and>
   storage keptManager = Some \<lparr>streakDate = Some 864000000, streakNumber = 7\<rparr> \<and>
   todayDate steadyFeed keptManager = 864000000 \<and>
   map_option ui (updateFunc steadyFeed storedManager) = Some [Main (DayStreak 3) Arrows True] \<and>
   map_option (\<lambda>t. t\<lparr>storage := None\<rparr>) (updateFunc steadyFeed storedManager) =
     map_option (\<lambda>t. t\<lparr>storage := None\<rparr>) (updateFunc steadyFeed freshManager) \<and>
   (\<exists>t b s2 r s3. updateFunc steadyFeed freshManager = Some t \<and>
      checkRecentPostsForToday steadyFeed ''alice''
        (if isRefreshing freshManager then freshManager
         else createLoadingIndicator (removeExistingStreakContainers freshManager)) = (b, s2) \<and>
      calculateStreak steadyFeed ''alice'' s2 = Some (r, s3) \<and>
      storage s3 = storage freshManager \<and>
      t = (case r of
             Inl err \<Rightarrow> showError steadyFeed ''Failed to update streak. Please refresh.'' s3
           | Inr n \<Rightarrow>
               createStreakDisplay (n + (if b then 1 else 0)) b
                 (removeExistingStreakContainers
                    (s3\<lparr>storage := Some \<lparr>streakDate = Some (clock s3),
                                           streakNumber = n + (if b then 1 else 0)\<rparr>\<rparr>)))) \<and>
   updateFunc noHelpFeed storedManager =
     Some (showError noHelpFeed ''Failed to update streak. Please refresh.'' storedManager) \<and>
   (\<exists>t' p. updateFunc_content steadyFeed keptManager = Some t' \<and>
      trace t' = trace keptManager \<and> nreq t' = nreq keptManager \<and>
      ui t' = [Main (DayStreak 7) Arrows p])"
proof -
  have h1: "helpLink steadyFeed" and h2: "profileLink steadyFeed = Some ''alice''"
    and h0: "\<not> helpLink noHelpFeed"
    by (simp_all add: steadyFeed_def noHelpFeed_def)
  have h3: "storage keptManager = Some \<lparr>streakDate = Some 864000000, streakNumber = 7\<rparr>"
    by (simp add: keptManager_def freshManager_def)
  have h4: "streakDate \<lparr>streakDate = Some 864000000, streakNumber = 7\<rparr> = Some 864000000"
    by simp
  have h5: "todayDate steadyFeed keptManager = 864000000"
    by (simp add: todayDate_def utcOfLocal_def steadyFeed_def keptManager_def freshManager_def
                  getUTCDate_def msPerDay_def)
  have sm: "storedManager = freshManager\<lparr>storage := Some \<lparr>streakDate = Some 867000000, streakNumber = 7\<rparr>\<rparr>"
    by (simp add: storedManager_def)
  have u: "map_option ui (updateFunc steadyFeed storedManager) = Some [Main (DayStreak 3) Arrows True]"
    by (simp add: run_defs streak_defs orchestrator_defs)
  have "\<exists>t. updateFunc steadyFeed freshManager = Some t"
    by (simp add: run_defs streak_defs orchestrator_defs)
  then obtain t where t: "updateFunc steadyFeed freshManager = Some t" ..
  note inst1 = update_recomputes_and_never_reads_record[where e = steadyFeed and s = freshManager
      and x = "Some \<lparr>streakDate = Some 867000000, streakNumber = 7\<rparr>" and h = "''alice''" and t = t]
  note inst2 = update_recomputes_and_never_reads_record[where e = steadyFeed and s = keptManager
      and h = "''alice''" and sr = "\<lparr>streakDate = Some 864000000, streakNumber = 7\<rparr>",
      unfolded h5]
  note inst3 = update_recomputes_and_never_reads_record[where e = noHelpFeed and s = storedManager]
  from inst1 have a: "map_option (\<lambda>t. t\<lparr>storage := None\<rparr>) (updateFunc steadyFeed storedManager) =
     map_option (\<lambda>t. t\<lparr>storage := None\<rparr>) (updateFunc steadyFeed freshManager)"
    unfolding sm by blast
  from inst1 h1 h2 t have b: "\<exists>t b s2 r s3. updateFunc steadyFeed freshManager = Some t \<and>
      checkRecentPostsForToday steadyFeed ''alice''
        (if isRefreshing freshManager then freshManager
         else createLoadingIndicator (removeExistingStreakContainers freshManager)) = (b, s2) \<and>
      calculateStreak steadyFeed ''alice'' s2 = Some (r, s3) \<and>
      storage s3 = storage freshManager \<and>
      t = (case r of
             Inl err \<Rightarrow> showError steadyFeed ''Failed to update streak. Please refresh.'' s3
           | Inr n \<Rightarrow>
               createStreakDisplay (n + (if b then 1 else 0)) b
                 (removeExistingStreakContainers
                    (s3\<lparr>storage := Some \<lparr>streakDate = Some (clock s3),
                                           streakNumber = n + (if b then 1 else 0)\<rparr>\<rparr>)))"
    by blast
  from inst3 h0 have d: "updateFunc noHelpFeed storedManager =
     Some (showError noHelpFeed ''Failed to update streak. Please refresh.'' storedManager)"
    by blast
  from inst2 h1 h2 h3 h4
  have c: "\<exists>t' p. updateFunc_content steadyFeed keptManager = Some t' \<and>
      trace t' = trace keptManager \<and> nreq t' = nreq keptManager \<and>
      ui t' = [Main (DayStreak 7) Arrows p]"
    by simp
  from h1 h2 h0 h3 h5 u a b d c show ?thesis by blast
qed














end
